theory Spec2Isabelle
  imports Complex_Main "HOL-Library.Multiset" "HOL-Library.Signed_Division"
begin

section \<open>The MATE invest applet: chart data extraction, merge and rendering\<close>

text \<open>
  The development embeds the chart part of the applet (\<open>fetch_chart_data\<close>,
  \<open>on_chart_data_received\<close>, \<open>chart_draw_cb\<close>) and the summary handler of the panel
  applet (\<open>invest_applet_update_stocks\<close>, \<open>on_stock_data_received\<close>).

  Conventions of the embedding:
  \<^item> a C array together with its element count is a list; a \<open>NULL\<close> array is the empty list;
  \<^item> a read or write through an index outside the array is undefined behaviour in C and is
    the result \<open>Inl OutOfBounds\<close> here;
  \<^item> \<open>gdouble\<close> values are real numbers and comparisons are those of the code; the
    arithmetic of the percent change goes through the machine's operations, a parameter;
    the arithmetic of the drawing coordinates is exact, and a division whose divisor is
    zero, which gives a non-finite double, is the coordinate \<open>None\<close>;
  \<^item> \<open>gint64\<close> timestamps and \<open>gint\<close> sizes are integers, with the wrap-around written
    out where the code computes with them; \<open>gint\<close> counts and indices that start at zero
    are natural numbers;
  \<^item> the document handed to the handlers is the result of the JSON parser, a tree;
  \<^item> widgets, timers, the queue of redraw requests and the release of memory have no
    effect on the data and on what is drawn, and are left out.
\<close>

subsection \<open>JSON documents and the accessors of the JSON library\<close>

datatype json =
    JNull
  | JBool bool
  | JInt int
  | JDouble real
  | JString string
  | JArray "json list"
  | JObject "(string \<times> json) list"

text \<open>
  An object pointer of the library: the members, looked up by name; \<open>None\<close> is \<open>NULL\<close>.
\<close>

type_synonym JsonObject = "(string \<times> json) list"

datatype GType =
    G_TYPE_INVALID | G_TYPE_BOOLEAN | G_TYPE_INT64 | G_TYPE_DOUBLE | G_TYPE_STRING
  | JSON_TYPE_OBJECT | JSON_TYPE_ARRAY

text \<open>
  The accessors below follow the documented behaviour of the library: each returns its
  neutral value (\<open>FALSE\<close>, \<open>NULL\<close>, \<open>0.0\<close>) when the object is \<open>NULL\<close>, the member is
  missing or the member holds a node of another kind.
\<close>

definition json_node_get_object :: "json option \<Rightarrow> JsonObject option" where
  "json_node_get_object node =
     (case node of Some (JObject ms) \<Rightarrow> Some ms | _ \<Rightarrow> None)"

definition json_object_get_member :: "JsonObject option \<Rightarrow> string \<Rightarrow> json option" where
  "json_object_get_member obj name =
     (case obj of None \<Rightarrow> None | Some ms \<Rightarrow> map_of ms name)"

definition json_object_has_member :: "JsonObject option \<Rightarrow> string \<Rightarrow> bool" where
  "json_object_has_member obj name = (json_object_get_member obj name \<noteq> None)"

definition json_object_get_null_member :: "JsonObject option \<Rightarrow> string \<Rightarrow> bool" where
  "json_object_get_null_member obj name =
     (case json_object_get_member obj name of Some JNull \<Rightarrow> True | _ \<Rightarrow> False)"

definition json_object_get_object_member :: "JsonObject option \<Rightarrow> string \<Rightarrow> JsonObject option" where
  "json_object_get_object_member obj name =
     (case json_object_get_member obj name of Some (JObject ms) \<Rightarrow> Some ms | _ \<Rightarrow> None)"

definition json_object_get_array_member :: "JsonObject option \<Rightarrow> string \<Rightarrow> json list option" where
  "json_object_get_array_member obj name =
     (case json_object_get_member obj name of Some (JArray xs) \<Rightarrow> Some xs | _ \<Rightarrow> None)"

definition json_array_get_length :: "json list \<Rightarrow> nat" where
  "json_array_get_length xs = length xs"

definition json_array_get_object_element :: "json list \<Rightarrow> nat \<Rightarrow> JsonObject option" where
  "json_array_get_object_element xs i =
     (if i < length xs then (case xs ! i of JObject ms \<Rightarrow> Some ms | _ \<Rightarrow> None) else None)"

fun json_node_get_value_type :: "json \<Rightarrow> GType" where
  "json_node_get_value_type JNull = G_TYPE_INVALID"
| "json_node_get_value_type (JBool b) = G_TYPE_BOOLEAN"
| "json_node_get_value_type (JInt i) = G_TYPE_INT64"
| "json_node_get_value_type (JDouble d) = G_TYPE_DOUBLE"
| "json_node_get_value_type (JString s) = G_TYPE_STRING"
| "json_node_get_value_type (JArray xs) = JSON_TYPE_ARRAY"
| "json_node_get_value_type (JObject ms) = JSON_TYPE_OBJECT"

fun json_node_get_int :: "json \<Rightarrow> int" where
  "json_node_get_int (JInt i) = i"
| "json_node_get_int (JDouble d) = (if d < 0 then - \<lfloor>- d\<rfloor> else \<lfloor>d\<rfloor>)"
| "json_node_get_int (JBool b) = (if b then 1 else 0)"
| "json_node_get_int _ = 0"

fun json_node_get_double :: "json \<Rightarrow> real" where
  "json_node_get_double (JDouble d) = d"
| "json_node_get_double (JInt i) = real_of_int i"
| "json_node_get_double (JBool b) = (if b then 1 else 0)"
| "json_node_get_double _ = 0"

definition json_object_get_double_member :: "JsonObject option \<Rightarrow> string \<Rightarrow> real" where
  "json_object_get_double_member obj name =
     (case json_object_get_member obj name of
        None \<Rightarrow> 0
      | Some node \<Rightarrow> json_node_get_double node)"

text \<open>
  The HTTP message as the handlers see it: the status code and what the JSON parser makes
  of the body (a parse error, or a root node, which is \<open>NULL\<close> for an empty document).
\<close>

datatype parse_result = ParseError | Parsed "json option"

record SoupMessage =
  status_code :: nat
  response_body :: parse_result

definition SOUP_STATUS_OK :: nat where
  "SOUP_STATUS_OK = 200"

subsection \<open>The chart's data\<close>

record StockChartData =
  symbol :: string
  prices :: "real list"
  timestamps :: "int list"
  data_count :: nat
  valid :: bool

text \<open>
  The chart: \<open>chart_data\<close> with \<open>chart_data_count\<close> is the list \<open>chart_data\<close>; the window
  is kept as its visibility.
\<close>

record InvestChart =
  window_visible :: bool
  chart_data :: "StockChartData list"
  chart_range :: "string option"
  chart_interval :: "string option"

definition chart_data_count :: "InvestChart \<Rightarrow> nat" where
  "chart_data_count chart = length (chart_data chart)"

datatype fault = OutOfBounds

definition invest_chart_new :: InvestChart where
  "invest_chart_new =
     \<lparr>window_visible = False, chart_data = [], chart_range = Some ''1d'',
      chart_interval = Some ''1m''\<rparr>"

definition free_chart_data :: "InvestChart \<Rightarrow> InvestChart" where
  "free_chart_data chart = chart\<lparr>chart_data := []\<rparr>"

subsection \<open>Starting a fetch\<close>

text \<open>
  A queued request: its URL and the completion context \<open>user_data_with_index\<close>, which
  holds the chart (the one chart of the model) and the slot index, and nothing else.
\<close>

record ChartRequest =
  req_url :: string
  req_index :: nat

definition init_slot :: "string \<Rightarrow> StockChartData" where
  "init_slot s = \<lparr>symbol = s, prices = [], timestamps = [], data_count = 0, valid = False\<rparr>"

definition chart_url :: "string \<Rightarrow> string \<Rightarrow> string \<Rightarrow> string" where
  "chart_url ticker ivl rng =
     ''https://query2.finance.yahoo.com/v8/finance/chart/'' @ ticker @ ''?interval='' @ ivl
       @ ''&range='' @ rng"

definition chart_request :: "InvestChart \<Rightarrow> string list \<Rightarrow> nat \<Rightarrow> ChartRequest" where
  "chart_request chart symbols i =
     (let rng = (case chart_range chart of Some r \<Rightarrow> r | None \<Rightarrow> ''1d'');
          ivl = (case chart_interval chart of Some v \<Rightarrow> v | None \<Rightarrow> ''1m'')
      in \<lparr>req_url = chart_url (symbols ! i) ivl rng, req_index = i\<rparr>)"

text \<open>
  \<open>fetch_chart_data\<close>: the first argument is the \<open>stock-symbols\<close> setting, \<open>None\<close> when the
  settings object is not available. The result is the chart and the requests queued.
\<close>

definition fetch_chart_data :: "string list option \<Rightarrow> InvestChart \<Rightarrow> InvestChart \<times> ChartRequest list" where
  "fetch_chart_data settings chart =
     (case settings of
        None \<Rightarrow> (chart, [])
      | Some symbols \<Rightarrow>
          if symbols = [] then (chart, [])
          else
            let chart1 = free_chart_data chart;
                chart2 = chart1\<lparr>chart_data := map init_slot symbols\<rparr>
            in (chart2, map (chart_request chart2 symbols) [0..<length symbols]))"

definition chart_range_button_clicked :: "string list option \<Rightarrow> string \<Rightarrow> string \<Rightarrow> InvestChart
    \<Rightarrow> InvestChart \<times> ChartRequest list" where
  "chart_range_button_clicked settings rng ivl chart =
     fetch_chart_data settings (chart\<lparr>chart_range := Some rng, chart_interval := Some ivl\<rparr>)"

subsection \<open>Handling a completed chart request\<close>

text \<open>The two copy loops, over arrays that \<open>g_malloc0\<close> filled with zeros.\<close>

function store_timestamps :: "json list \<Rightarrow> nat \<Rightarrow> int list \<Rightarrow> int list" where
  "store_timestamps nodes i ts =
     (if i < json_array_get_length nodes
      then store_timestamps nodes (Suc i)
             (if json_node_get_value_type (nodes ! i) = G_TYPE_INT64
              then ts[i := json_node_get_int (nodes ! i)] else ts)
      else ts)"
  by pat_completeness auto
termination
  by (relation "measure (\<lambda>(nodes, i, ts). length nodes - i)") (auto simp: json_array_get_length_def)

declare store_timestamps.simps [simp del]

function store_prices :: "json list \<Rightarrow> nat \<Rightarrow> real list \<Rightarrow> real list" where
  "store_prices nodes i ps =
     (if i < json_array_get_length nodes
      then store_prices nodes (Suc i)
             (if json_node_get_value_type (nodes ! i) = G_TYPE_DOUBLE
              then ps[i := json_node_get_double (nodes ! i)] else ps)
      else ps)"
  by pat_completeness auto
termination
  by (relation "measure (\<lambda>(nodes, i, ps). length nodes - i)") (auto simp: json_array_get_length_def)

declare store_prices.simps [simp del]

text \<open>A write to the fields of slot \<open>symbol_index\<close> of the chart's array.\<close>

definition update_slot :: "StockChartData list \<Rightarrow> nat \<Rightarrow> (StockChartData \<Rightarrow> StockChartData)
    \<Rightarrow> fault + StockChartData list" where
  "update_slot cd i f = (if i < length cd then Inr (cd[i := f (cd ! i)]) else Inl OutOfBounds)"

definition parse_timestamps :: "JsonObject \<Rightarrow> nat \<Rightarrow> StockChartData list \<Rightarrow> fault + StockChartData list" where
  "parse_timestamps result symbol_index cd =
     (if json_object_has_member (Some result) ''timestamp'' then
        (case json_object_get_array_member (Some result) ''timestamp'' of
           None \<Rightarrow> Inr cd
         | Some tstamps \<Rightarrow>
             let timestamp_count = json_array_get_length tstamps
             in update_slot cd symbol_index
                  (\<lambda>d. d\<lparr>timestamps := store_timestamps tstamps 0 (replicate timestamp_count 0),
                         data_count := timestamp_count\<rparr>))
      else Inr cd)"

definition parse_prices :: "JsonObject \<Rightarrow> nat \<Rightarrow> StockChartData list \<Rightarrow> fault + StockChartData list" where
  "parse_prices result symbol_index cd =
     (if json_object_has_member (Some result) ''indicators'' then
        let indicators = json_object_get_object_member (Some result) ''indicators'' in
        if json_object_has_member indicators ''quote'' then
          (case json_object_get_array_member indicators ''quote'' of
             None \<Rightarrow> Inr cd
           | Some quotes \<Rightarrow>
               if json_array_get_length quotes > 0 then
                 let quote = json_array_get_object_element quotes 0 in
                 if quote \<noteq> None \<and> json_object_has_member quote ''close'' then
                   (case json_object_get_array_member quote ''close'' of
                      None \<Rightarrow> Inr cd
                    | Some close_prices \<Rightarrow>
                        let price_count = json_array_get_length close_prices
                        in update_slot cd symbol_index
                             (\<lambda>d. d\<lparr>prices := store_prices close_prices 0 (replicate price_count 0),
                                    valid := True\<rparr>))
                 else Inr cd
               else Inr cd)
        else Inr cd
      else Inr cd)"

text \<open>The first element of \<open>chart.result\<close>, as both handlers reach it.\<close>

definition first_result :: "json option \<Rightarrow> JsonObject option" where
  "first_result root_node =
     (let root_obj = json_node_get_object root_node in
      if json_object_has_member root_obj ''chart'' then
        let chart_obj = json_object_get_object_member root_obj ''chart'' in
        if json_object_has_member chart_obj ''result''
           \<and> \<not> json_object_get_null_member chart_obj ''result'' then
          (case json_object_get_array_member chart_obj ''result'' of
             None \<Rightarrow> None
           | Some results \<Rightarrow>
               if json_array_get_length results > 0
               then json_array_get_object_element results 0 else None)
        else None
      else None)"

definition on_chart_data_received :: "InvestChart \<Rightarrow> nat \<Rightarrow> SoupMessage \<Rightarrow> fault + InvestChart" where
  "on_chart_data_received chart symbol_index msg =
     (if status_code msg \<noteq> SOUP_STATUS_OK then Inr chart
      else
        (case response_body msg of
           ParseError \<Rightarrow> Inr chart
         | Parsed root_node \<Rightarrow>
             (case first_result root_node of
                None \<Rightarrow> Inr chart
              | Some result \<Rightarrow>
                  (case parse_timestamps result symbol_index (chart_data chart) of
                     Inl e \<Rightarrow> Inl e
                   | Inr cd1 \<Rightarrow>
                       (case parse_prices result symbol_index cd1 of
                          Inl e \<Rightarrow> Inl e
                        | Inr cd2 \<Rightarrow> Inr (chart\<lparr>chart_data := cd2\<rparr>))))))"

subsection \<open>Drawing the chart\<close>

text \<open>
  The drawing surface is the list of operations issued to it. Text that the code formats
  from numbers (\<open>%.2f\<close>, calendar fields of a local time) is kept as the numbers formatted.
\<close>

type_synonym coord = "real option"

datatype time_format = HourMinute | MonthDay | MonthYear

datatype text_item =
    Message string
  | PriceText real
  | TimeText time_format int
  | LegendText string real

datatype cairo_op =
    SetSourceRGB real real real
  | SetSourceColor string
  | Paint
  | SetLineWidth real
  | SelectFontFace string
  | SetFontSize real
  | MoveTo coord coord
  | LineTo coord coord
  | Stroke
  | ShowText text_item

definition array_get :: "'a list \<Rightarrow> nat \<Rightarrow> fault + 'a" where
  "array_get xs i = (if i < length xs then Inr (xs ! i) else Inl OutOfBounds)"

definition fdiv :: "real \<Rightarrow> real \<Rightarrow> coord" where
  "fdiv a b = (if b = 0 then None else Some (a / b))"

definition G_MAXDOUBLE :: real where
  "G_MAXDOUBLE = (2 ^ 53 - 1) * 2 ^ 971"

definition G_MINDOUBLE :: real where
  "G_MINDOUBLE = 1 / 2 ^ 1022"

definition G_MAXINT64 :: int where
  "G_MAXINT64 = 2 ^ 63 - 1"

definition G_MININT64 :: int where
  "G_MININT64 = - (2 ^ 63)"

definition MIN_of :: "'a::linorder \<Rightarrow> 'a \<Rightarrow> 'a" where
  "MIN_of a b = (if a < b then a else b)"

definition MAX_of :: "'a::linorder \<Rightarrow> 'a \<Rightarrow> 'a" where
  "MAX_of a b = (if a > b then a else b)"

definition draw_loading_message :: "int \<Rightarrow> int \<Rightarrow> string \<Rightarrow> cairo_op list" where
  "draw_loading_message width height message =
     [SetSourceRGB 0 0 0, SelectFontFace ''Sans'', SetFontSize 16,
      MoveTo (Some (real_of_int (width sdiv 2 - 50))) (Some (real_of_int (height sdiv 2))),
      ShowText (Message message)]"

text \<open>A series takes part in a draw pass when this test of the code holds.\<close>

definition qualifies :: "StockChartData \<Rightarrow> bool" where
  "qualifies d = (valid d \<and> data_count d > 0)"

definition has_valid_data :: "InvestChart \<Rightarrow> bool" where
  "has_valid_data chart = list_ex qualifies (chart_data chart)"

text \<open>The scaling pass: the loop over the prices of one series, and the loop over the series.\<close>

function scan_prices :: "real list \<Rightarrow> nat \<Rightarrow> nat \<Rightarrow> real \<times> real \<Rightarrow> fault + real \<times> real" where
  "scan_prices ps n j (min_price, max_price) =
     (if j < n then
        (case array_get ps j of
           Inl e \<Rightarrow> Inl e
         | Inr p \<Rightarrow>
             scan_prices ps n (Suc j)
               (if p > 0 then (MIN_of min_price p, MAX_of max_price p) else (min_price, max_price)))
      else Inr (min_price, max_price))"
  by pat_completeness auto
termination
  by (relation "measure (\<lambda>(ps, n, j, acc). n - j)") auto

declare scan_prices.simps [simp del]

definition scan_times :: "StockChartData \<Rightarrow> int \<times> int \<Rightarrow> fault + int \<times> int" where
  "scan_times d acc =
     (case array_get (timestamps d) 0 of
        Inl e \<Rightarrow> Inl e
      | Inr t0 \<Rightarrow>
          if t0 > 0 then
            (case array_get (timestamps d) (data_count d - 1) of
               Inl e \<Rightarrow> Inl e
             | Inr tlast \<Rightarrow>
                 if tlast > 0 \<and> t0 < 9999999999
                 then Inr (MIN_of (fst acc) t0, MAX_of (snd acc) tlast)
                 else Inr acc)
          else Inr acc)"

fun scan_series :: "StockChartData list \<Rightarrow> (real \<times> real) \<times> (int \<times> int)
    \<Rightarrow> fault + (real \<times> real) \<times> (int \<times> int)" where
  "scan_series [] acc = Inr acc"
| "scan_series (d # ds) (pacc, tacc) =
     (if valid d \<and> data_count d > 0 then
        (case scan_prices (prices d) (data_count d) 0 pacc of
           Inl e \<Rightarrow> Inl e
         | Inr pacc' \<Rightarrow>
             (case scan_times d tacc of
                Inl e \<Rightarrow> Inl e
              | Inr tacc' \<Rightarrow> scan_series ds (pacc', tacc')))
      else scan_series ds (pacc, tacc))"

text \<open>Grid and labels.\<close>

definition horizontal_grid :: "int \<Rightarrow> int \<Rightarrow> cairo_op list" where
  "horizontal_grid width height =
     concat (map (\<lambda>i. let y = 50 + real i * real_of_int (height - 100) / 10
                      in [MoveTo (Some 50) (Some y),
                          LineTo (Some (real_of_int (width - 50))) (Some y), Stroke])
                 [0..<Suc 10])"

definition vertical_grid :: "int \<Rightarrow> int \<Rightarrow> cairo_op list" where
  "vertical_grid width height =
     concat (map (\<lambda>i. let x = 50 + real i * real_of_int (width - 100) / 10
                      in [MoveTo (Some x) (Some 50),
                          LineTo (Some x) (Some (real_of_int (height - 50))), Stroke])
                 [0..<Suc 10])"

definition draw_grid :: "int \<Rightarrow> int \<Rightarrow> cairo_op list" where
  "draw_grid width height =
     [SetSourceRGB 0.9 0.9 0.9, SetLineWidth 1] @ horizontal_grid width height
       @ vertical_grid width height"

definition price_labels :: "int \<Rightarrow> real \<Rightarrow> real \<Rightarrow> cairo_op list" where
  "price_labels height min_price max_price =
     concat (map (\<lambda>i. let price = max_price - real i * (max_price - min_price) / 5;
                          y = 50 + real i * real_of_int (height - 100) / 5
                      in [MoveTo (Some 5) (Some (y + 3)), ShowText (PriceText price)])
                 [0..<Suc 5])"

definition label_format :: "string option \<Rightarrow> time_format" where
  "label_format r =
     (if r \<noteq> None \<and> r = Some ''1d'' then HourMinute
      else if r \<noteq> None \<and> (r = Some ''5d'' \<or> r = Some ''1mo'' \<or> r = Some ''3mo'') then MonthDay
      else MonthYear)"

text \<open>
  The label times are computed in \<open>gint64\<close>: every operation wraps around at 64 bits
  (two's complement), and the division truncates toward zero.
\<close>

definition gint64_wrap :: "int \<Rightarrow> int" where
  "gint64_wrap x = (x + 2 ^ 63) mod 2 ^ 64 - 2 ^ 63"

definition time_labels :: "InvestChart \<Rightarrow> int \<Rightarrow> int \<Rightarrow> int \<Rightarrow> int \<Rightarrow> cairo_op list" where
  "time_labels chart width height min_time max_time =
     concat (map (\<lambda>i. let time = gint64_wrap (min_time
                                 + gint64_wrap (int i * gint64_wrap (max_time - min_time)) sdiv 5);
                          x = 50 + real i * real_of_int (width - 100) / 5
                      in [MoveTo (Some (x - 20)) (Some (real_of_int (height - 20))),
                          ShowText (TimeText (label_format (chart_range chart)) time)])
                 [0..<Suc 5])"

definition colors :: "string list" where
  "colors = [''#CC0000'', ''#3465A4'', ''#73D216'', ''#FCE94F'', ''#AD7FA8'', ''#F57900'',
             ''#C17D11'', ''#555753'']"

text \<open>Collecting and sorting the series to draw.\<close>

record StockSortInfo =
  index :: nat
  current_price :: real

fun collect_sort_info :: "StockChartData list \<Rightarrow> nat \<Rightarrow> fault + StockSortInfo list" where
  "collect_sort_info [] i = Inr []"
| "collect_sort_info (d # ds) i =
     (if valid d \<and> data_count d > 0 then
        (case array_get (prices d) (data_count d - 1) of
           Inl e \<Rightarrow> Inl e
         | Inr p \<Rightarrow>
             (case collect_sort_info ds (Suc i) of
                Inl e \<Rightarrow> Inl e
              | Inr rest \<Rightarrow> Inr (\<lparr>index = i, current_price = p\<rparr> # rest)))
      else collect_sort_info ds (Suc i))"

function sort_inner :: "StockSortInfo list \<Rightarrow> nat \<Rightarrow> nat \<Rightarrow> nat \<Rightarrow> StockSortInfo list" where
  "sort_inner sort_info valid_count i j =
     (if j < valid_count then
        sort_inner
          (if current_price (sort_info ! i) < current_price (sort_info ! j)
           then sort_info[i := sort_info ! j, j := sort_info ! i] else sort_info)
          valid_count i (Suc j)
      else sort_info)"
  by pat_completeness auto
termination
  by (relation "measure (\<lambda>(a, n, i, j). n - j)") auto

declare sort_inner.simps [simp del]

function sort_outer :: "StockSortInfo list \<Rightarrow> nat \<Rightarrow> nat \<Rightarrow> StockSortInfo list" where
  "sort_outer sort_info valid_count i =
     (if int i < int valid_count - 1
      then sort_outer (sort_inner sort_info valid_count i (i + 1)) valid_count (Suc i)
      else sort_info)"
  by pat_completeness auto
termination
  by (relation "measure (\<lambda>(a, n, i). n - i)") auto

declare sort_outer.simps [simp del]

text \<open>The line of one series, then the loop over the sorted series with the legend.\<close>

function draw_points :: "StockChartData \<Rightarrow> int \<Rightarrow> real \<Rightarrow> coord \<Rightarrow> nat \<Rightarrow> bool
    \<Rightarrow> fault + cairo_op list" where
  "draw_points d width max_price y_scale j first_point =
     (if j < data_count d then
        (case array_get (prices d) j of
           Inl e \<Rightarrow> Inl e
         | Inr p \<Rightarrow>
             if p > 0 then
               (case array_get (timestamps d) j of
                  Inl e \<Rightarrow> Inl e
                | Inr t \<Rightarrow>
                    if t > 0 \<and> t < 9999999999 then
                      let x = map_option (\<lambda>q. 50 + q)
                                (fdiv (real j * real_of_int (width - 100))
                                      (real_of_int (int (data_count d) - 1)));
                          y = map_option (\<lambda>s. 50 + (max_price - p) * s) y_scale
                      in (case draw_points d width max_price y_scale (Suc j) False of
                            Inl e \<Rightarrow> Inl e
                          | Inr ops \<Rightarrow>
                              Inr ((if first_point then MoveTo x y else LineTo x y) # ops))
                    else draw_points d width max_price y_scale (Suc j) first_point)
             else draw_points d width max_price y_scale (Suc j) first_point)
      else Inr [])"
  by pat_completeness auto
termination
  by (relation "measure (\<lambda>(d, w, m, s, j, f). data_count d - j)") auto

declare draw_points.simps [simp del]

definition draw_stock :: "StockChartData list \<Rightarrow> int \<Rightarrow> real \<Rightarrow> coord \<Rightarrow> nat \<Rightarrow> StockSortInfo
    \<Rightarrow> fault + cairo_op list" where
  "draw_stock cd width max_price y_scale i info =
     (let stock_index = index info;
          color_idx = i mod length colors
      in case array_get cd stock_index of
           Inl e \<Rightarrow> Inl e
         | Inr d \<Rightarrow>
             (case draw_points d width max_price y_scale 0 True of
                Inl e \<Rightarrow> Inl e
              | Inr line \<Rightarrow>
                  (case array_get (prices d) (data_count d - 1) of
                     Inl e \<Rightarrow> Inl e
                   | Inr current \<Rightarrow>
                       Inr ([SetSourceColor (colors ! color_idx), SetLineWidth 2] @ line
                            @ [Stroke,
                               MoveTo (Some (real_of_int (width - 200)))
                                      (Some (real_of_int (30 + int i * 20))),
                               ShowText (LegendText (symbol d) current)]))))"

fun draw_stocks :: "StockChartData list \<Rightarrow> int \<Rightarrow> real \<Rightarrow> coord \<Rightarrow> nat \<Rightarrow> StockSortInfo list
    \<Rightarrow> fault + cairo_op list" where
  "draw_stocks cd width max_price y_scale i [] = Inr []"
| "draw_stocks cd width max_price y_scale i (info # rest) =
     (case draw_stock cd width max_price y_scale i info of
        Inl e \<Rightarrow> Inl e
      | Inr ops \<Rightarrow>
          (case draw_stocks cd width max_price y_scale (Suc i) rest of
             Inl e \<Rightarrow> Inl e
           | Inr others \<Rightarrow> Inr (ops @ others)))"

text \<open>
  \<open>chart_draw_cb\<close>: \<open>width\<close> and \<open>height\<close> are the size of the drawing area as the
  callback determines it. The horizontal scale factor that the code computes and never uses
  is left out.
\<close>

definition chart_draw_cb :: "int \<Rightarrow> int \<Rightarrow> InvestChart \<Rightarrow> fault + cairo_op list" where
  "chart_draw_cb width height chart =
     (let background = [SetSourceRGB 1 1 1, Paint] in
      if \<not> has_valid_data chart
      then Inr (background @ draw_loading_message width height ''Loading chart data...'')
      else
        (case scan_series (chart_data chart)
                ((G_MAXDOUBLE, G_MINDOUBLE), (G_MAXINT64, G_MININT64)) of
           Inl e \<Rightarrow> Inl e
         | Inr ((min_price, max_price), (min_time, max_time)) \<Rightarrow>
             if min_price = G_MAXDOUBLE \<or> max_price = G_MINDOUBLE
                \<or> min_time = G_MAXINT64 \<or> max_time = G_MININT64
             then Inr (background @ draw_loading_message width height ''No chart data available'')
             else
               let price_range = max_price - min_price;
                   min_price' = min_price - price_range * 0.05;
                   max_price' = max_price + price_range * 0.05;
                   y_scale = fdiv (real_of_int (height - 100)) (max_price' - min_price');
                   axes = draw_grid width height
                          @ [SetSourceRGB 0 0 0, SelectFontFace ''Sans'', SetFontSize 10]
                          @ price_labels height min_price' max_price'
                          @ time_labels chart width height min_time max_time
               in (case collect_sort_info (chart_data chart) 0 of
                     Inl e \<Rightarrow> Inl e
                   | Inr sort_info \<Rightarrow>
                       (case draw_stocks (chart_data chart) width max_price' y_scale 0
                               (sort_outer sort_info (length sort_info) 0) of
                          Inl e \<Rightarrow> Inl e
                        | Inr series \<Rightarrow> Inr (background @ axes @ series)))))"

subsection \<open>The panel applet's summary fetch\<close>

datatype summary_text =
    SummaryMessage string
  | SummaryQuote string real

datatype tooltip_line =
    TooltipQuote string real real
  | TooltipNoData string

datatype tooltip_text =
    TooltipMessage string
  | TooltipLines "tooltip_line list"

record InvestApplet =
  stock_summary :: "summary_text option"
  change_percent :: real
  pending_requests :: int
  total_symbols :: nat
  stock_symbols :: "string list"
  stock_prices :: "real list"
  stock_changes :: "real list"
  stock_valid :: "bool list"
  cycle_position :: nat
  cycle_timeout_id :: bool
  tooltip :: "tooltip_text option"

definition update_applet_text :: "InvestApplet \<Rightarrow> summary_text \<Rightarrow> real \<Rightarrow> InvestApplet" where
  "update_applet_text applet message change =
     applet\<lparr>stock_summary := Some message, change_percent := change\<rparr>"

definition free_stock_data :: "InvestApplet \<Rightarrow> InvestApplet" where
  "free_stock_data applet =
     applet\<lparr>stock_symbols := [], stock_prices := [], stock_changes := [], stock_valid := [],
            stock_summary := None\<rparr>"

definition clear_timeout :: "InvestApplet \<Rightarrow> InvestApplet" where
  "clear_timeout applet = applet\<lparr>cycle_timeout_id := False\<rparr>"

definition summary_url :: "string \<Rightarrow> string" where
  "summary_url ticker = ''https://query2.finance.yahoo.com/v8/finance/chart/'' @ ticker"

definition invest_applet_update_stocks :: "string list option \<Rightarrow> InvestApplet
    \<Rightarrow> InvestApplet \<times> ChartRequest list" where
  "invest_applet_update_stocks settings applet =
     (case settings of
        None \<Rightarrow> (applet, [])
      | Some symbols \<Rightarrow>
          if symbols = []
          then (update_applet_text applet (SummaryMessage ''No stocks configured'') 0, [])
          else
            let symbol_count = length symbols;
                applet1 = free_stock_data applet;
                applet2 = applet1\<lparr>pending_requests := int symbol_count,
                                 total_symbols := symbol_count,
                                 stock_symbols := symbols,
                                 stock_prices := replicate symbol_count 0,
                                 stock_changes := replicate symbol_count 0,
                                 stock_valid := replicate symbol_count False,
                                 cycle_position := 0\<rparr>
            in (clear_timeout applet2,
                map (\<lambda>i. \<lparr>req_url = summary_url (symbols ! i), req_index = i\<rparr>)
                    [0..<symbol_count]))"

definition get_valid_stock_indices :: "InvestApplet \<Rightarrow> fault + nat list" where
  "get_valid_stock_indices applet =
     (if total_symbols applet \<le> length (stock_valid applet)
      then Inr (filter (\<lambda>i. stock_valid applet ! i) [0..<total_symbols applet])
      else Inl OutOfBounds)"

definition display_stock_at_index :: "InvestApplet \<Rightarrow> nat \<Rightarrow> fault + InvestApplet" where
  "display_stock_at_index applet stock_index =
     (if stock_index \<ge> total_symbols applet \<or> stock_symbols applet = [] then Inr applet
      else
        (case array_get (stock_symbols applet) stock_index of
           Inl e \<Rightarrow> Inl e
         | Inr s \<Rightarrow>
             (case array_get (stock_prices applet) stock_index of
                Inl e \<Rightarrow> Inl e
              | Inr price \<Rightarrow>
                  (case array_get (stock_changes applet) stock_index of
                     Inl e \<Rightarrow> Inl e
                   | Inr change \<Rightarrow>
                       Inr (update_applet_text applet
                              (SummaryQuote (takeWhile (\<lambda>c. c \<noteq> CHR ''='') s) price) change)))))"

fun tooltip_lines :: "InvestApplet \<Rightarrow> nat list \<Rightarrow> fault + tooltip_line list" where
  "tooltip_lines applet [] = Inr []"
| "tooltip_lines applet (i # rest) =
     (case array_get (stock_valid applet) i of
        Inl e \<Rightarrow> Inl e
      | Inr v \<Rightarrow>
          (case array_get (stock_symbols applet) i of
             Inl e \<Rightarrow> Inl e
           | Inr s \<Rightarrow>
               (case (if v
                      then (case array_get (stock_prices applet) i of
                              Inl e \<Rightarrow> Inl e
                            | Inr price \<Rightarrow>
                                (case array_get (stock_changes applet) i of
                                   Inl e \<Rightarrow> Inl e
                                 | Inr change \<Rightarrow> Inr (TooltipQuote s price change)))
                      else Inr (TooltipNoData s)) of
                  Inl e \<Rightarrow> Inl e
                | Inr line \<Rightarrow>
                    (case tooltip_lines applet rest of
                       Inl e \<Rightarrow> Inl e
                     | Inr others \<Rightarrow> Inr (line # others)))))"

definition create_stock_tooltip :: "InvestApplet \<Rightarrow> fault + tooltip_text" where
  "create_stock_tooltip applet =
     (case tooltip_lines applet [0..<total_symbols applet] of
        Inl e \<Rightarrow> Inl e
      | Inr ls \<Rightarrow>
          if list_ex (\<lambda>l. case l of TooltipQuote s p c \<Rightarrow> True | TooltipNoData s \<Rightarrow> False) ls
          then Inr (TooltipLines ls)
          else Inr (TooltipMessage ''No valid stock data''))"

text \<open>What the handler does once the count of pending requests has reached zero.\<close>

definition all_requests_done :: "InvestApplet \<Rightarrow> fault + InvestApplet" where
  "all_requests_done applet =
     (if total_symbols applet > 0 then
        let applet1 = (clear_timeout applet)\<lparr>cycle_position := 0\<rparr> in
        (case get_valid_stock_indices applet1 of
           Inl e \<Rightarrow> Inl e
         | Inr valid_indices \<Rightarrow>
             if length valid_indices > 0 then
               (case display_stock_at_index applet1 (valid_indices ! 0) of
                  Inl e \<Rightarrow> Inl e
                | Inr applet2 \<Rightarrow>
                    let applet3 =
                          (if \<not> cycle_timeout_id applet2 \<and> length valid_indices > 1
                           then applet2\<lparr>cycle_timeout_id := True\<rparr> else applet2)
                    in (case create_stock_tooltip applet3 of
                          Inl e \<Rightarrow> Inl e
                        | Inr t \<Rightarrow> Inr (applet3\<lparr>tooltip := Some t\<rparr>)))
             else Inr (update_applet_text applet1 (SummaryMessage ''No valid stock data'') 0))
      else Inr (update_applet_text applet (SummaryMessage ''No valid stock data'') 0))"

text \<open>
  The three stores of the handler into slot \<open>symbol_index\<close> of the three arrays, in the
  order of the code.
\<close>

definition store_stock :: "InvestApplet \<Rightarrow> nat \<Rightarrow> real \<Rightarrow> real \<Rightarrow> fault + InvestApplet" where
  "store_stock applet symbol_index price change =
     (if symbol_index < length (stock_prices applet)
         \<and> symbol_index < length (stock_changes applet)
         \<and> symbol_index < length (stock_valid applet)
      then Inr (applet\<lparr>stock_prices := (stock_prices applet)[symbol_index := price],
                       stock_changes := (stock_changes applet)[symbol_index := change],
                       stock_valid := (stock_valid applet)[symbol_index := True]\<rparr>)
      else Inl OutOfBounds)"

text \<open>
  The percent change is computed by three operations on \<open>gdouble\<close>, each of which gives
  the double that the machine's arithmetic makes of the exact result. The three operations
  are a parameter of the handler.
\<close>

record DoubleOps =
  double_sub :: "real \<Rightarrow> real \<Rightarrow> real"
  double_div :: "real \<Rightarrow> real \<Rightarrow> real"
  double_mul :: "real \<Rightarrow> real \<Rightarrow> real"

definition parse_stock :: "DoubleOps \<Rightarrow> InvestApplet \<Rightarrow> nat \<Rightarrow> SoupMessage \<Rightarrow> fault + InvestApplet" where
  "parse_stock fp applet symbol_index msg =
     (if status_code msg \<noteq> SOUP_STATUS_OK then Inr applet
      else
        (case response_body msg of
           ParseError \<Rightarrow> Inr applet
         | Parsed root_node \<Rightarrow>
             (case first_result root_node of
                None \<Rightarrow> Inr applet
              | Some result \<Rightarrow>
                  let meta = json_object_get_object_member (Some result) ''meta'' in
                  if meta \<noteq> None then
                    let current = json_object_get_double_member meta ''regularMarketPrice'';
                        prev_close = json_object_get_double_member meta ''previousClose''
                    in if current > 0 \<and> prev_close > 0 then
                         let change = double_mul fp
                                        (double_div fp (double_sub fp current prev_close) prev_close)
                                        100
                         in store_stock applet symbol_index current change
                       else Inr applet
                  else Inr applet)))"

definition on_stock_data_received :: "DoubleOps \<Rightarrow> InvestApplet \<Rightarrow> nat \<Rightarrow> SoupMessage
    \<Rightarrow> fault + InvestApplet" where
  "on_stock_data_received fp applet symbol_index msg =
     (case parse_stock fp applet symbol_index msg of
        Inl e \<Rightarrow> Inl e
      | Inr applet1 \<Rightarrow>
          let applet2 = applet1\<lparr>pending_requests := pending_requests applet1 - 1\<rparr>
          in if pending_requests applet2 = 0 then all_requests_done applet2 else Inr applet2)"

subsection \<open>Paths into a document, as the specification names them\<close>

text \<open>
  The specification names places of the response by paths such as
  \<open>chart.result[0].indicators.quote[0].close\<close>. A path is followed member by member and
  element by element; it leads nowhere when a member is missing, an index is outside the
  array, or a node is not of the kind the next step needs.
\<close>

datatype step = Key string | Idx nat

fun json_step :: "json \<Rightarrow> step \<Rightarrow> json option" where
  "json_step (JObject ms) (Key k) = map_of ms k"
| "json_step (JArray xs) (Idx i) = (if i < length xs then Some (xs ! i) else None)"
| "json_step _ _ = None"

fun json_at :: "step list \<Rightarrow> json \<Rightarrow> json option" where
  "json_at [] j = Some j"
| "json_at (s # p) j = (case json_step j s of None \<Rightarrow> None | Some v \<Rightarrow> json_at p v)"

definition node_at :: "step list \<Rightarrow> json option \<Rightarrow> json option" where
  "node_at p root_node = (case root_node of None \<Rightarrow> None | Some j \<Rightarrow> json_at p j)"

definition result_path :: "step list" where
  "result_path = [Key ''chart'', Key ''result'', Idx 0]"

definition timestamp_path :: "step list" where
  "timestamp_path = result_path @ [Key ''timestamp'']"

definition close_path :: "step list" where
  "close_path = result_path @ [Key ''indicators'', Key ''quote'', Idx 0, Key ''close'']"

definition meta_path :: "step list" where
  "meta_path = result_path @ [Key ''meta'']"

text \<open>The tolerant copy of the specification: an element of another type leaves a zero.\<close>

fun timestamp_of :: "json \<Rightarrow> int" where
  "timestamp_of (JInt v) = v"
| "timestamp_of _ = 0"

fun price_of :: "json \<Rightarrow> real" where
  "price_of (JDouble v) = v"
| "price_of _ = 0"

text \<open>
  What the specification's extractor makes of a parsed document, written on a slot: the
  timestamp array, when there is one, gives \<open>timestamps\<close> and \<open>data_count\<close>; the close
  array, when there is one, gives \<open>prices\<close> and marks the slot valid.
\<close>

definition extracted :: "json option \<Rightarrow> StockChartData \<Rightarrow> StockChartData" where
  "extracted root_node d =
     (let d1 = (case node_at timestamp_path root_node of
                  Some (JArray ts) \<Rightarrow> d\<lparr>timestamps := map timestamp_of ts, data_count := length ts\<rparr>
                | _ \<Rightarrow> d)
      in case node_at close_path root_node of
           Some (JArray cl) \<Rightarrow> d1\<lparr>prices := map price_of cl, valid := True\<rparr>
         | _ \<Rightarrow> d1)"

text \<open>
  A number of the summary, \<open>chart.result[0].meta.<name>\<close>, as the specification reads it:
  the value of a number, and zero when the path leads nowhere or to something that is not
  a number.
\<close>

definition meta_double :: "json option \<Rightarrow> string \<Rightarrow> real" where
  "meta_double root_node name =
     (case node_at (meta_path @ [Key name]) root_node of
        Some node \<Rightarrow> json_node_get_double node
      | None \<Rightarrow> 0)"

text \<open>The four arrays of the applet have one element per symbol.\<close>

definition arrays_sized :: "InvestApplet \<Rightarrow> bool" where
  "arrays_sized a \<longleftrightarrow>
     length (stock_symbols a) = total_symbols a \<and> length (stock_prices a) = total_symbols a
     \<and> length (stock_changes a) = total_symbols a \<and> length (stock_valid a) = total_symbols a"

subsection \<open>Reading a drawing\<close>

text \<open>
  What an observer reads off the operations of a draw pass: whether a placeholder message
  was shown, the legend rows from top to bottom, and the stroke colours in the order set.
\<close>

fun is_message :: "cairo_op \<Rightarrow> bool" where
  "is_message (ShowText (Message m)) = True"
| "is_message _ = False"

definition shows_message :: "cairo_op list \<Rightarrow> bool" where
  "shows_message ops = list_ex is_message ops"

fun legend_rows :: "cairo_op list \<Rightarrow> (string \<times> real) list" where
  "legend_rows [] = []"
| "legend_rows (ShowText (LegendText s p) # ops) = (s, p) # legend_rows ops"
| "legend_rows (_ # ops) = legend_rows ops"

fun stroke_colors :: "cairo_op list \<Rightarrow> string list" where
  "stroke_colors [] = []"
| "stroke_colors (SetSourceColor c # ops) = c # stroke_colors ops"
| "stroke_colors (_ # ops) = stroke_colors ops"

text \<open>
  The invariant of the sorting loops: of the first \<open>i\<close> entries, each is at least as high
  as every entry after it.
\<close>

definition prefix_sorted :: "StockSortInfo list \<Rightarrow> nat \<Rightarrow> bool" where
  "prefix_sorted a i \<longleftrightarrow>
     (\<forall>k l. k < l \<and> l < length a \<and> k < i \<longrightarrow> current_price (a ! l) \<le> current_price (a ! k))"

text \<open>
  The lines stroked in the colour of the grid: the operations are read in order, with the
  colour that is current (\<open>True\<close> when it is the grid's grey), and a stroke counts when it
  is made in that colour. A colour of the palette is never that grey: its components are
  multiples of 1/255, which 0.9 is not.
\<close>

fun grey_after :: "bool \<Rightarrow> cairo_op list \<Rightarrow> bool" where
  "grey_after g [] = g"
| "grey_after g (SetSourceRGB r gr b # ops) = grey_after (r = 0.9 \<and> gr = 0.9 \<and> b = 0.9) ops"
| "grey_after g (SetSourceColor c # ops) = grey_after False ops"
| "grey_after g (_ # ops) = grey_after g ops"

fun grid_strokes :: "bool \<Rightarrow> cairo_op list \<Rightarrow> nat" where
  "grid_strokes g [] = 0"
| "grid_strokes g (SetSourceRGB r gr b # ops) = grid_strokes (r = 0.9 \<and> gr = 0.9 \<and> b = 0.9) ops"
| "grid_strokes g (SetSourceColor c # ops) = grid_strokes False ops"
| "grid_strokes g (Stroke # ops) = (if g then 1 else 0) + grid_strokes g ops"
| "grid_strokes g (_ # ops) = grid_strokes g ops"

subsection \<open>The data of a chart, as the scaling pass sees it\<close>

text \<open>
  A series is in bounds when both of its arrays hold at least \<open>data_count\<close> elements; a
  collection is sized when every qualifying series is. The prices that count for the price
  range are the strictly positive ones among the first \<open>data_count\<close> prices of the
  qualifying series. A series counts for the time range when its first and last timestamps
  are positive and the first is below the ceiling. The scaling pass finds no scale when no
  counting price is below \<open>G_MAXDOUBLE\<close>, or none is above \<open>G_MINDOUBLE\<close>, or no
  qualifying series counts for the time range.
\<close>

definition in_bounds :: "StockChartData \<Rightarrow> bool" where
  "in_bounds d = (data_count d \<le> length (prices d) \<and> data_count d \<le> length (timestamps d))"

definition sized :: "StockChartData list \<Rightarrow> bool" where
  "sized ds = list_all in_bounds (filter qualifies ds)"

definition positive_prices :: "StockChartData list \<Rightarrow> real list" where
  "positive_prices ds =
     concat (map (\<lambda>d. filter (\<lambda>p. p > 0) (take (data_count d) (prices d))) (filter qualifies ds))"

definition plausible :: "StockChartData \<Rightarrow> bool" where
  "plausible d =
     (timestamps d ! 0 > 0 \<and> timestamps d ! (data_count d - 1) > 0
      \<and> timestamps d ! 0 < 9999999999)"

definition no_scale :: "StockChartData list \<Rightarrow> bool" where
  "no_scale ds =
     (list_all (\<lambda>p. G_MAXDOUBLE \<le> p) (positive_prices ds)
      \<or> list_all (\<lambda>p. p \<le> G_MINDOUBLE) (positive_prices ds)
      \<or> list_all (\<lambda>d. \<not> plausible d) (filter qualifies ds))"

subsection \<open>Example inputs\<close>

definition example_document :: "json list \<Rightarrow> json list \<Rightarrow> json" where
  "example_document ts cl =
     JObject [(''chart'', JObject [(''result'', JArray [JObject
       [(''timestamp'', JArray ts),
        (''indicators'', JObject [(''quote'', JArray [JObject [(''close'', JArray cl)]])])]])])]"

text \<open>A response that holds a timestamp array and no \<open>indicators\<close>.\<close>

definition timestamps_only_document :: "json list \<Rightarrow> json" where
  "timestamps_only_document ts =
     JObject [(''chart'', JObject [(''result'', JArray [JObject [(''timestamp'', JArray ts)]])])]"

definition ok_message :: "json \<Rightarrow> SoupMessage" where
  "ok_message doc = \<lparr>status_code = 200, response_body = Parsed (Some doc)\<rparr>"

definition failed_message :: SoupMessage where
  "failed_message = \<lparr>status_code = 500, response_body = ParseError\<rparr>"

text \<open>The chart after a fetch has been started for the given symbols.\<close>

definition started :: "string list \<Rightarrow> InvestChart" where
  "started symbols = fst (fetch_chart_data (Some symbols) invest_chart_new)"

text \<open>
  Two fetches in a row: the first for three symbols with the initial range, the second
  started by a click on the range button \<open>Week\<close> while the first is still in flight.
\<close>

definition generation1 :: "InvestChart \<times> ChartRequest list" where
  "generation1 = fetch_chart_data (Some [''AAA'', ''BBB'', ''CCC'']) invest_chart_new"

definition generation2 :: "InvestChart \<times> ChartRequest list" where
  "generation2 =
     chart_range_button_clicked (Some [''AAA'', ''BBB'', ''CCC'']) ''5d'' ''5m'' (fst generation1)"

definition summary_document :: "json \<Rightarrow> json \<Rightarrow> json" where
  "summary_document price prev =
     JObject [(''chart'', JObject [(''result'', JArray [JObject
       [(''meta'', JObject [(''symbol'', JString ''IBM''), (''regularMarketPrice'', price),
                            (''previousClose'', prev)])]]),
       (''error'', JNull)])]"

definition new_applet :: InvestApplet where
  "new_applet =
     \<lparr>stock_summary = None, change_percent = 0, pending_requests = 0, total_symbols = 0,
      stock_symbols = [], stock_prices = [], stock_changes = [], stock_valid = [],
      cycle_position = 0, cycle_timeout_id = False, tooltip = None\<rparr>"

text \<open>A chart with three series whose last prices are 50, 200 and 10.\<close>

definition three_series :: InvestChart where
  "three_series =
     \<lparr>window_visible = True,
      chart_data =
        [\<lparr>symbol = ''AAA'', prices = [49, 50], timestamps = [1000, 1060], data_count = 2,
          valid = True\<rparr>,
         \<lparr>symbol = ''BBB'', prices = [190, 200], timestamps = [1000, 1060], data_count = 2,
          valid = True\<rparr>,
         \<lparr>symbol = ''CCC'', prices = [12, 10], timestamps = [1000, 1060], data_count = 2,
          valid = True\<rparr>],
      chart_range = Some ''1d'', chart_interval = Some ''1m''\<rparr>"

text \<open>The operations of a draw pass of that chart on an area of 800 by 500.\<close>

definition three_series_drawing :: "cairo_op list" where
  "three_series_drawing =
     [SetSourceRGB 1 1 1, Paint, SetSourceRGB (9 / 10) (9 / 10) (9 / 10),
      SetLineWidth 1, MoveTo (Some 50) (Some 50),
      LineTo (Some 750) (Some 50), Stroke, MoveTo (Some 50) (Some 90),
      LineTo (Some 750) (Some 90), Stroke, MoveTo (Some 50) (Some 130),
      LineTo (Some 750) (Some 130), Stroke, MoveTo (Some 50) (Some 170),
      LineTo (Some 750) (Some 170), Stroke, MoveTo (Some 50) (Some 210),
      LineTo (Some 750) (Some 210), Stroke, MoveTo (Some 50) (Some 250),
      LineTo (Some 750) (Some 250), Stroke, MoveTo (Some 50) (Some 290),
      LineTo (Some 750) (Some 290), Stroke, MoveTo (Some 50) (Some 330),
      LineTo (Some 750) (Some 330), Stroke, MoveTo (Some 50) (Some 370),
      LineTo (Some 750) (Some 370), Stroke, MoveTo (Some 50) (Some 410),
      LineTo (Some 750) (Some 410), Stroke, MoveTo (Some 50) (Some 450),
      LineTo (Some 750) (Some 450), Stroke, MoveTo (Some 50) (Some 50),
      LineTo (Some 50) (Some 450), Stroke, MoveTo (Some 120) (Some 50),
      LineTo (Some 120) (Some 450), Stroke, MoveTo (Some 190) (Some 50),
      LineTo (Some 190) (Some 450), Stroke, MoveTo (Some 260) (Some 50),
      LineTo (Some 260) (Some 450), Stroke, MoveTo (Some 330) (Some 50),
      LineTo (Some 330) (Some 450), Stroke, MoveTo (Some 400) (Some 50),
      LineTo (Some 400) (Some 450), Stroke, MoveTo (Some 470) (Some 50),
      LineTo (Some 470) (Some 450), Stroke, MoveTo (Some 540) (Some 50),
      LineTo (Some 540) (Some 450), Stroke, MoveTo (Some 610) (Some 50),
      LineTo (Some 610) (Some 450), Stroke, MoveTo (Some 680) (Some 50),
      LineTo (Some 680) (Some 450), Stroke, MoveTo (Some 750) (Some 50),
      LineTo (Some 750) (Some 450), Stroke, SetSourceRGB 0 0 0,
      SelectFontFace ''Sans'', SetFontSize 10, MoveTo (Some 5) (Some 53),
      ShowText (PriceText (419 / 2)), MoveTo (Some 5) (Some 133),
      ShowText (PriceText (1677 / 10)), MoveTo (Some 5) (Some 213),
      ShowText (PriceText (1259 / 10)), MoveTo (Some 5) (Some 293),
      ShowText (PriceText (841 / 10)), MoveTo (Some 5) (Some 373),
      ShowText (PriceText (423 / 10)), MoveTo (Some 5) (Some 453),
      ShowText (PriceText (1 / 2)), MoveTo (Some 30) (Some 480),
      ShowText (TimeText HourMinute 1000), MoveTo (Some 170) (Some 480),
      ShowText (TimeText HourMinute 1012), MoveTo (Some 310) (Some 480),
      ShowText (TimeText HourMinute 1024), MoveTo (Some 450) (Some 480),
      ShowText (TimeText HourMinute 1036), MoveTo (Some 590) (Some 480),
      ShowText (TimeText HourMinute 1048), MoveTo (Some 730) (Some 480),
      ShowText (TimeText HourMinute 1060), SetSourceColor ''#CC0000'',
      SetLineWidth 2, MoveTo (Some 50) (Some (18250 / 209)),
      LineTo (Some 750) (Some (750 / 11)), Stroke,
      MoveTo (Some 600) (Some 30), ShowText (LegendText ''BBB'' 200),
      SetSourceColor ''#3465A4'', SetLineWidth 2,
      MoveTo (Some 50) (Some (74650 / 209)),
      LineTo (Some 750) (Some (6750 / 19)), Stroke,
      MoveTo (Some 600) (Some 50), ShowText (LegendText ''AAA'' 50),
      SetSourceColor ''#73D216'', SetLineWidth 2,
      MoveTo (Some 50) (Some (89450 / 209)),
      LineTo (Some 750) (Some (4750 / 11)), Stroke,
      MoveTo (Some 600) (Some 70), ShowText (LegendText ''CCC'' 10)]"

text \<open>A chart whose only series is valid and has one point, with a price of zero.\<close>

definition zero_price_series :: InvestChart where
  "zero_price_series =
     \<lparr>window_visible = True,
      chart_data = [\<lparr>symbol = ''AAA'', prices = [0], timestamps = [1000], data_count = 1,
                     valid = True\<rparr>],
      chart_range = Some ''1d'', chart_interval = Some ''1m''\<rparr>"

text \<open>
  A chart whose only series is valid with one point, at a plausible time and with a positive
  price below \<open>G_MINDOUBLE\<close>.
\<close>

definition tiny_price_series :: InvestChart where
  "tiny_price_series =
     \<lparr>window_visible = True,
      chart_data = [\<lparr>symbol = ''AAA'', prices = [1 / 2 ^ 1023], timestamps = [1000],
                     data_count = 1, valid = True\<rparr>],
      chart_range = Some ''1d'', chart_interval = Some ''1m''\<rparr>"

text \<open>A fetch for two symbols after the completion for the first symbol has been handled.\<close>

definition two_symbols_one_done :: InvestChart where
  "two_symbols_one_done =
     \<lparr>window_visible = False,
      chart_data =
        [\<lparr>symbol = ''AAA'', prices = [10, 11], timestamps = [1000, 1010], data_count = 2,
          valid = True\<rparr>,
         \<lparr>symbol = ''BBB'', prices = [], timestamps = [], data_count = 0, valid = False\<rparr>],
      chart_range = Some ''1d'', chart_interval = Some ''1m''\<rparr>"

text \<open>
  Operations on doubles for the examples: on the numbers used there every exact result is
  a double, so the machine's operations give the exact result.
\<close>

definition exact_ops :: DoubleOps where
  "exact_ops = \<lparr>double_sub = (\<lambda>a b. a - b), double_div = (\<lambda>a b. a / b),
                double_mul = (\<lambda>a b. a * b)\<rparr>"

text \<open>
  The applet after a refresh for two symbols and the completion for the first symbol, with
  a price of 150 after a close of 100.
\<close>

definition one_symbol_done :: InvestApplet where
  "one_symbol_done =
     \<lparr>stock_summary = None, change_percent = 0, pending_requests = 1, total_symbols = 2,
      stock_symbols = [''IBM'', ''AAPL''], stock_prices = [150, 0], stock_changes = [50, 0],
      stock_valid = [True, False], cycle_position = 0, cycle_timeout_id = False,
      tooltip = None\<rparr>"

section \<open>Properties\<close>

subsection \<open>The copy loops\<close>

lemma store_timestamps_nth:
  "length ts = length nodes \<Longrightarrow>
   length (store_timestamps nodes i ts) = length nodes \<and>
   (\<forall>k < length nodes. store_timestamps nodes i ts ! k =
      (if i \<le> k \<and> json_node_get_value_type (nodes ! k) = G_TYPE_INT64
       then json_node_get_int (nodes ! k) else ts ! k))"
proof (induction nodes i ts rule: store_timestamps.induct)
  case (1 nodes i ts)
  show ?case
  proof (cases "i < length nodes")
    case True
    let ?ts' = "if json_node_get_value_type (nodes ! i) = G_TYPE_INT64
              then ts[i := json_node_get_int (nodes ! i)] else ts"
    have len: "length ?ts' = length nodes" using "1.prems" by simp
    have IH: "length (store_timestamps nodes (Suc i) ?ts') = length nodes \<and>
   (\<forall>k < length nodes. store_timestamps nodes (Suc i) ?ts' ! k =
      (if Suc i \<le> k \<and> json_node_get_value_type (nodes ! k) = G_TYPE_INT64
       then json_node_get_int (nodes ! k) else ?ts' ! k))"
      using "1.IH"[OF _ len] True by (simp add: json_array_get_length_def)
    have step: "store_timestamps nodes i ts = store_timestamps nodes (Suc i) ?ts'"
      using True by (subst store_timestamps.simps) (simp add: json_array_get_length_def)
    have eq: "\<And>k. i \<le> k \<Longrightarrow> \<not> Suc i \<le> k \<Longrightarrow> k = i" by simp
    show ?thesis
      unfolding step using IH "1.prems" True
      by (auto simp: nth_list_update dest: eq)
  next
    case False
    then show ?thesis using "1.prems"
      by (subst (1 2) store_timestamps.simps) (auto simp: json_array_get_length_def)
  qed
qed

lemma int_node:
  "(json_node_get_value_type n = G_TYPE_INT64 \<longrightarrow> json_node_get_int n = timestamp_of n)
   \<and> (json_node_get_value_type n \<noteq> G_TYPE_INT64 \<longrightarrow> timestamp_of n = 0)"
  by (cases n) auto

lemma store_timestamps_map:
  "store_timestamps nodes 0 (replicate (length nodes) 0) = map timestamp_of nodes"
  using store_timestamps_nth[of "replicate (length nodes) 0" nodes 0] int_node
  by (auto intro!: nth_equalityI)

lemma store_prices_nth:
  "length ps = length nodes \<Longrightarrow>
   length (store_prices nodes i ps) = length nodes \<and>
   (\<forall>k < length nodes. store_prices nodes i ps ! k =
      (if i \<le> k \<and> json_node_get_value_type (nodes ! k) = G_TYPE_DOUBLE
       then json_node_get_double (nodes ! k) else ps ! k))"
proof (induction nodes i ps rule: store_prices.induct)
  case (1 nodes i ps)
  show ?case
  proof (cases "i < length nodes")
    case True
    let ?ps' = "if json_node_get_value_type (nodes ! i) = G_TYPE_DOUBLE
              then ps[i := json_node_get_double (nodes ! i)] else ps"
    have len: "length ?ps' = length nodes" using "1.prems" by simp
    have IH: "length (store_prices nodes (Suc i) ?ps') = length nodes \<and>
   (\<forall>k < length nodes. store_prices nodes (Suc i) ?ps' ! k =
      (if Suc i \<le> k \<and> json_node_get_value_type (nodes ! k) = G_TYPE_DOUBLE
       then json_node_get_double (nodes ! k) else ?ps' ! k))"
      using "1.IH"[OF _ len] True by (simp add: json_array_get_length_def)
    have step: "store_prices nodes i ps = store_prices nodes (Suc i) ?ps'"
      using True by (subst store_prices.simps) (simp add: json_array_get_length_def)
    have eq: "\<And>k. i \<le> k \<Longrightarrow> \<not> Suc i \<le> k \<Longrightarrow> k = i" by simp
    show ?thesis
      unfolding step using IH "1.prems" True
      by (auto simp: nth_list_update dest: eq)
  next
    case False
    then show ?thesis using "1.prems"
      by (subst (1 2) store_prices.simps) (auto simp: json_array_get_length_def)
  qed
qed

lemma double_node:
  "(json_node_get_value_type n = G_TYPE_DOUBLE \<longrightarrow> json_node_get_double n = price_of n)
   \<and> (json_node_get_value_type n \<noteq> G_TYPE_DOUBLE \<longrightarrow> price_of n = 0)"
  by (cases n) auto

lemma store_prices_map:
  "store_prices nodes 0 (replicate (length nodes) 0) = map price_of nodes"
  using store_prices_nth[of "replicate (length nodes) 0" nodes 0] double_node
  by (auto intro!: nth_equalityI)

subsection \<open>The handler's navigation follows the paths\<close>

lemma first_result_path:
  "first_result r = Some res \<longleftrightarrow> node_at result_path r = Some (JObject res)"
  unfolding first_result_def node_at_def result_path_def json_node_get_object_def
    json_object_has_member_def json_object_get_member_def json_object_get_object_member_def
    json_object_get_null_member_def json_object_get_array_member_def json_array_get_length_def
    json_array_get_object_element_def
  by (auto split: option.splits json.splits)

lemma json_at_append:
  "json_at (p @ q) j = (case json_at p j of None \<Rightarrow> None | Some v \<Rightarrow> json_at q v)"
  by (induction p arbitrary: j) (auto split: option.splits)

lemma node_at_append:
  "node_at (p @ q) r = (case node_at p r of None \<Rightarrow> None | Some v \<Rightarrow> json_at q v)"
  by (simp add: node_at_def json_at_append split: option.splits)

lemma parse_timestamps_path:
  "i < length cd \<Longrightarrow>
   parse_timestamps result i cd =
     Inr (cd[i := (case json_at [Key ''timestamp''] (JObject result) of
                     Some (JArray ts) \<Rightarrow> (cd ! i)\<lparr>timestamps := map timestamp_of ts, data_count := length ts\<rparr>
                   | _ \<Rightarrow> cd ! i)])"
  unfolding parse_timestamps_def json_object_has_member_def json_object_get_member_def
    json_object_get_array_member_def json_array_get_length_def update_slot_def
  by (auto simp: store_timestamps_map Let_def split: option.splits json.splits)

lemma parse_prices_path:
  "i < length cd \<Longrightarrow>
   parse_prices result i cd =
     Inr (cd[i := (case json_at [Key ''indicators'', Key ''quote'', Idx 0, Key ''close''] (JObject result) of
                     Some (JArray cl) \<Rightarrow> (cd ! i)\<lparr>prices := map price_of cl, valid := True\<rparr>
                   | _ \<Rightarrow> cd ! i)])"
  unfolding parse_prices_def json_object_has_member_def json_object_get_member_def
    json_object_get_array_member_def json_array_get_length_def update_slot_def
    json_object_get_object_member_def json_array_get_object_element_def
  by (auto simp: store_prices_map Let_def split: option.splits json.splits)

lemma json_step_KeyD: "json_step x (Key k) = Some v \<Longrightarrow> \<exists>ms. x = JObject ms"
  by (cases x) auto

lemma on_chart_data_received_extracted:
  assumes "status_code msg = SOUP_STATUS_OK" and "response_body msg = Parsed r"
    and "i < length (chart_data c)"
  shows "on_chart_data_received c i msg =
           Inr (c\<lparr>chart_data := (chart_data c)[i := extracted r (chart_data c ! i)]\<rparr>)"
proof (cases "first_result r")
  case None
  then have "node_at result_path r \<noteq> Some (JObject res)" for res
    using first_result_path[of r res] by simp
  then have "node_at timestamp_path r = None" "node_at close_path r = None"
    unfolding timestamp_path_def close_path_def node_at_append
    by (auto split: option.splits dest: json_step_KeyD)
  then show ?thesis using assms None
    by (simp add: on_chart_data_received_def extracted_def)
next
  case (Some res)
  then have p: "node_at result_path r = Some (JObject res)"
    using first_result_path by simp
  show ?thesis using assms Some
    by (simp add: on_chart_data_received_def extracted_def parse_timestamps_path
        parse_prices_path timestamp_path_def close_path_def node_at_append p Let_def
        split: option.splits json.splits)
qed

subsection \<open>The extractor\<close>

lemma fetch_chart_data_slots:
  "symbols \<noteq> [] \<Longrightarrow>
   chart_data (fst (fetch_chart_data (Some symbols) c0)) = map init_slot symbols"
  by (simp add: fetch_chart_data_def Let_def free_chart_data_def)

lemma extracted_fields:
  "timestamps (extracted r d) =
     (case node_at timestamp_path r of Some (JArray ts) \<Rightarrow> map timestamp_of ts | _ \<Rightarrow> timestamps d)"
  "data_count (extracted r d) =
     (case node_at timestamp_path r of Some (JArray ts) \<Rightarrow> length ts | _ \<Rightarrow> data_count d)"
  "prices (extracted r d) =
     (case node_at close_path r of Some (JArray cl) \<Rightarrow> map price_of cl | _ \<Rightarrow> prices d)"
  "valid (extracted r d) =
     (case node_at close_path r of Some (JArray cl) \<Rightarrow> True | _ \<Rightarrow> valid d)"
  "symbol (extracted r d) = symbol d"
  by (auto simp: extracted_def Let_def split: option.splits json.splits)

text \<open>
  Claim C4. When the response holds a timestamp array at \<open>chart.result[0].timestamp\<close>,
  the handler sets \<open>data_count\<close> to the length of that array and stores a \<open>timestamps\<close>
  array of exactly that length: an element of integer type is copied, every other element
  leaves a zero in its slot.
\<close>

theorem timestamps_copied:
  assumes "status_code msg = SOUP_STATUS_OK" and "response_body msg = Parsed r"
    and "node_at timestamp_path r = Some (JArray ts)"
    and "i < chart_data_count c"
  shows "\<exists>c'. on_chart_data_received c i msg = Inr c'
           \<and> data_count (chart_data c' ! i) = length ts
           \<and> length (timestamps (chart_data c' ! i)) = length ts
           \<and> timestamps (chart_data c' ! i) = map timestamp_of ts"
  using assms
  by (simp add: on_chart_data_received_extracted chart_data_count_def extracted_fields)

theorem timestamps_copied_witness:
  "status_code (ok_message (example_document [JInt 1000, JString ''n/a'', JInt 1020] [JDouble 10])) = SOUP_STATUS_OK
   \<and> response_body (ok_message (example_document [JInt 1000, JString ''n/a'', JInt 1020] [JDouble 10]))
       = Parsed (Some (example_document [JInt 1000, JString ''n/a'', JInt 1020] [JDouble 10]))
   \<and> node_at timestamp_path (Some (example_document [JInt 1000, JString ''n/a'', JInt 1020] [JDouble 10]))
       = Some (JArray [JInt 1000, JString ''n/a'', JInt 1020])
   \<and> 0 < chart_data_count (started [''IBM''])
   \<and> (\<exists>c'. on_chart_data_received (started [''IBM'']) 0
              (ok_message (example_document [JInt 1000, JString ''n/a'', JInt 1020] [JDouble 10])) = Inr c'
           \<and> data_count (chart_data c' ! 0) = 3
           \<and> timestamps (chart_data c' ! 0) = [1000, 0, 1020])"
proof -
  let ?doc = "example_document [JInt 1000, JString ''n/a'', JInt 1020] [JDouble 10]"
  have h1: "status_code (ok_message ?doc) = SOUP_STATUS_OK"
    by (simp add: ok_message_def SOUP_STATUS_OK_def)
  have h2: "response_body (ok_message ?doc) = Parsed (Some ?doc)"
    by (simp add: ok_message_def)
  have h3: "node_at timestamp_path (Some ?doc) = Some (JArray [JInt 1000, JString ''n/a'', JInt 1020])"
    by (simp add: node_at_def timestamp_path_def result_path_def example_document_def)
  have h4: "0 < chart_data_count (started [''IBM''])"
    by (simp add: chart_data_count_def started_def fetch_chart_data_slots)
  show ?thesis
    using timestamps_copied[OF h1 h2 h3 h4] h1 h2 h3 h4 by (auto simp: numeral_3_eq_3)
qed

text \<open>
  Claim C6. A completion whose status is not OK, or whose body does not parse, is handled
  without a fault for every chart and every slot index and changes nothing; the series of a
  freshly started slot is therefore invalid with empty \<open>prices\<close> and \<open>timestamps\<close>.
\<close>

theorem failed_fetch_leaves_invalid_series:
  assumes "status_code msg \<noteq> SOUP_STATUS_OK \<or> response_body msg = ParseError"
  shows "on_chart_data_received c i msg = Inr c
         \<and> (symbols \<noteq> [] \<and> i < length symbols \<longrightarrow>
             (\<exists>c'. on_chart_data_received (fst (fetch_chart_data (Some symbols) c)) i msg = Inr c'
                \<and> chart_data c' ! i =
                    \<lparr>symbol = symbols ! i, prices = [], timestamps = [], data_count = 0,
                     valid = False\<rparr>))"
  using assms
  by (auto simp: on_chart_data_received_def fetch_chart_data_slots init_slot_def)

theorem failed_fetch_leaves_invalid_series_witness:
  "status_code failed_message \<noteq> SOUP_STATUS_OK
   \<and> on_chart_data_received (started [''IBM'']) 7 failed_message = Inr (started [''IBM''])
   \<and> [''IBM''] \<noteq> [] \<and> 0 < length [''IBM'']
   \<and> (\<exists>c'. on_chart_data_received (fst (fetch_chart_data (Some [''IBM'']) invest_chart_new)) 0
              failed_message = Inr c'
           \<and> chart_data c' ! 0 =
               \<lparr>symbol = ''IBM'', prices = [], timestamps = [], data_count = 0, valid = False\<rparr>)"
proof -
  have h: "status_code failed_message \<noteq> SOUP_STATUS_OK \<or> response_body failed_message = ParseError"
    by (simp add: failed_message_def SOUP_STATUS_OK_def)
  show ?thesis
    using failed_fetch_leaves_invalid_series[OF h, of "started [''IBM'']" 7 "[''IBM'']"]
      failed_fetch_leaves_invalid_series[OF h, of invest_chart_new 0 "[''IBM'']"]
    by (simp add: failed_message_def SOUP_STATUS_OK_def)
qed

lemma started_eval:
  "symbols \<noteq> [] \<Longrightarrow> started symbols =
     \<lparr>window_visible = False, chart_data = map init_slot symbols, chart_range = Some ''1d'',
      chart_interval = Some ''1m''\<rparr>"
  by (simp add: started_def fetch_chart_data_def Let_def free_chart_data_def invest_chart_new_def)

lemma ok_message_handled:
  "i < length (chart_data c) \<Longrightarrow>
   on_chart_data_received c i (ok_message doc) =
     Inr (c\<lparr>chart_data := (chart_data c)[i := extracted (Some doc) (chart_data c ! i)]\<rparr>)"
  by (rule on_chart_data_received_extracted) (simp_all add: ok_message_def SOUP_STATUS_OK_def)

lemma example_document_paths:
  "node_at timestamp_path (Some (example_document ts cl)) = Some (JArray ts)"
  "node_at close_path (Some (example_document ts cl)) = Some (JArray cl)"
  by (simp_all add: node_at_def timestamp_path_def close_path_def result_path_def
      example_document_def)

lemma timestamps_only_document_paths:
  "node_at timestamp_path (Some (timestamps_only_document ts)) = Some (JArray ts)"
  "node_at close_path (Some (timestamps_only_document ts)) = None"
  by (simp_all add: node_at_def timestamp_path_def close_path_def result_path_def
      timestamps_only_document_def)

lemma extracted_example:
  "extracted (Some (example_document ts cl)) d =
     d\<lparr>timestamps := map timestamp_of ts, data_count := length ts,
       prices := map price_of cl, valid := True\<rparr>"
  by (simp add: extracted_def example_document_paths)

lemma two_symbols_one_done_reached:
  "on_chart_data_received (started [''AAA'', ''BBB'']) 0
     (ok_message (example_document [JInt 1000, JInt 1010] [JDouble 10, JDouble 11]))
   = Inr two_symbols_one_done"
  by (simp add: started_eval ok_message_handled extracted_example init_slot_def
      two_symbols_one_done_def)

text \<open>
  Claim C5. For a response with an OK status and a parsed body, handled on a slot of any
  chart whose series is not marked valid (as every slot is when a fetch has just been
  started, whatever the other slots hold by then): the handler returns, and the series is
  marked valid exactly when there is an array at
  \<open>chart.result[0].indicators.quote[0].close\<close>: an empty array marks it valid, a missing
  \<open>indicators\<close>, \<open>quote\<close> or \<open>close\<close>, or a null, leaves it invalid.
\<close>

theorem valid_iff_close_array:
  assumes "i < chart_data_count c" and "\<not> valid (chart_data c ! i)"
    and "status_code msg = SOUP_STATUS_OK" and "response_body msg = Parsed r"
  shows "\<exists>c'. on_chart_data_received c i msg = Inr c'
           \<and> (valid (chart_data c' ! i) \<longleftrightarrow> (\<exists>cl. node_at close_path r = Some (JArray cl)))"
  using assms
  by (auto simp: on_chart_data_received_extracted chart_data_count_def extracted_fields
      split: option.splits json.splits)

theorem valid_iff_close_array_witness:
  "on_chart_data_received (started [''AAA'', ''BBB'']) 0
     (ok_message (example_document [JInt 1000, JInt 1010] [JDouble 10, JDouble 11]))
     = Inr two_symbols_one_done
   \<and> 1 < chart_data_count two_symbols_one_done
   \<and> \<not> valid (chart_data two_symbols_one_done ! 1)
   \<and> status_code (ok_message (example_document [JInt 1000] [])) = SOUP_STATUS_OK
   \<and> response_body (ok_message (example_document [JInt 1000] []))
       = Parsed (Some (example_document [JInt 1000] []))
   \<and> node_at close_path (Some (example_document [JInt 1000] [])) = Some (JArray [])
   \<and> (\<exists>c'. on_chart_data_received two_symbols_one_done 1
              (ok_message (example_document [JInt 1000] [])) = Inr c'
           \<and> valid (chart_data c' ! 1))
   \<and> status_code (ok_message (timestamps_only_document [JInt 1000])) = SOUP_STATUS_OK
   \<and> response_body (ok_message (timestamps_only_document [JInt 1000]))
       = Parsed (Some (timestamps_only_document [JInt 1000]))
   \<and> node_at close_path (Some (timestamps_only_document [JInt 1000])) = None
   \<and> (\<exists>c'. on_chart_data_received two_symbols_one_done 1
              (ok_message (timestamps_only_document [JInt 1000])) = Inr c'
           \<and> \<not> valid (chart_data c' ! 1))"
proof -
  let ?doc = "example_document [JInt 1000] []"
  let ?doc2 = "timestamps_only_document [JInt 1000]"
  have h1: "1 < chart_data_count two_symbols_one_done"
    by (simp add: chart_data_count_def two_symbols_one_done_def)
  have h2: "\<not> valid (chart_data two_symbols_one_done ! 1)"
    by (simp add: two_symbols_one_done_def)
  have h3: "status_code (ok_message ?doc) = SOUP_STATUS_OK"
    by (simp add: ok_message_def SOUP_STATUS_OK_def)
  have h4: "response_body (ok_message ?doc) = Parsed (Some ?doc)"
    by (simp add: ok_message_def)
  have h5: "node_at close_path (Some ?doc) = Some (JArray [])"
    by (simp add: example_document_paths)
  have e1: "\<exists>c'. on_chart_data_received two_symbols_one_done 1 (ok_message ?doc) = Inr c'
           \<and> valid (chart_data c' ! 1)"
    using valid_iff_close_array[OF h1 h2 h3 h4] h5 by auto
  have g3: "status_code (ok_message ?doc2) = SOUP_STATUS_OK"
    by (simp add: ok_message_def SOUP_STATUS_OK_def)
  have g4: "response_body (ok_message ?doc2) = Parsed (Some ?doc2)"
    by (simp add: ok_message_def)
  have g5: "node_at close_path (Some ?doc2) = None"
    by (simp add: timestamps_only_document_paths)
  have e2: "\<exists>c'. on_chart_data_received two_symbols_one_done 1 (ok_message ?doc2) = Inr c'
           \<and> \<not> valid (chart_data c' ! 1)"
    using valid_iff_close_array[OF h1 h2 g3 g4] g5 by auto
  show ?thesis
    using two_symbols_one_done_reached h1 h2 h3 h4 h5 e1 g3 g4 g5 e2 by (intro conjI)
qed

text \<open>
  Claim C2, as amended. For a response with an OK status and a parsed body, handled on a
  freshly started slot of any chart, whatever the other slots hold: the handler returns,
  and the length of \<open>timestamps\<close> equals \<open>data_count\<close>; when a close array is present
  the length of \<open>prices\<close> is the length of that close array, else \<open>prices\<close> is empty;
  so with both arrays present the length of \<open>prices\<close> equals \<open>data_count\<close> exactly when
  the two arrays of the response have the same length.
\<close>

theorem extractor_array_lengths:
  assumes "i < chart_data_count c" and "chart_data c ! i = init_slot s"
    and "status_code msg = SOUP_STATUS_OK" and "response_body msg = Parsed r"
  shows "\<exists>c'. on_chart_data_received c i msg = Inr c'
           \<and> length (timestamps (chart_data c' ! i)) = data_count (chart_data c' ! i)
           \<and> (\<forall>cl. node_at close_path r = Some (JArray cl) \<longrightarrow>
                  length (prices (chart_data c' ! i)) = length cl)
           \<and> ((\<nexists>cl. node_at close_path r = Some (JArray cl)) \<longrightarrow> prices (chart_data c' ! i) = [])
           \<and> (\<forall>cl ts. node_at close_path r = Some (JArray cl) \<longrightarrow>
                  node_at timestamp_path r = Some (JArray ts) \<longrightarrow>
                  (length (prices (chart_data c' ! i)) = data_count (chart_data c' ! i)
                     \<longleftrightarrow> length cl = length ts))"
  using assms
  by (auto simp: on_chart_data_received_extracted chart_data_count_def extracted_fields
      init_slot_def split: option.splits json.splits)

theorem extractor_array_lengths_witness:
  "on_chart_data_received (started [''AAA'', ''BBB'']) 0
     (ok_message (example_document [JInt 1000, JInt 1010] [JDouble 10, JDouble 11]))
     = Inr two_symbols_one_done
   \<and> 1 < chart_data_count two_symbols_one_done
   \<and> chart_data two_symbols_one_done ! 1 = init_slot ''BBB''
   \<and> status_code (ok_message (example_document [JInt 1000, JInt 1010, JInt 1020] [JDouble 10])) = SOUP_STATUS_OK
   \<and> response_body (ok_message (example_document [JInt 1000, JInt 1010, JInt 1020] [JDouble 10]))
       = Parsed (Some (example_document [JInt 1000, JInt 1010, JInt 1020] [JDouble 10]))
   \<and> node_at close_path (Some (example_document [JInt 1000, JInt 1010, JInt 1020] [JDouble 10]))
       = Some (JArray [JDouble 10])
   \<and> node_at timestamp_path (Some (example_document [JInt 1000, JInt 1010, JInt 1020] [JDouble 10]))
       = Some (JArray [JInt 1000, JInt 1010, JInt 1020])
   \<and> (\<exists>c'. on_chart_data_received two_symbols_one_done 1
              (ok_message (example_document [JInt 1000, JInt 1010, JInt 1020] [JDouble 10])) = Inr c'
           \<and> length (timestamps (chart_data c' ! 1)) = data_count (chart_data c' ! 1)
           \<and> length (prices (chart_data c' ! 1)) = 1
           \<and> length (prices (chart_data c' ! 1)) \<noteq> data_count (chart_data c' ! 1))
   \<and> status_code (ok_message (timestamps_only_document [JInt 1000])) = SOUP_STATUS_OK
   \<and> response_body (ok_message (timestamps_only_document [JInt 1000]))
       = Parsed (Some (timestamps_only_document [JInt 1000]))
   \<and> node_at close_path (Some (timestamps_only_document [JInt 1000])) = None
   \<and> (\<exists>c'. on_chart_data_received two_symbols_one_done 1
              (ok_message (timestamps_only_document [JInt 1000])) = Inr c'
           \<and> length (timestamps (chart_data c' ! 1)) = data_count (chart_data c' ! 1)
           \<and> prices (chart_data c' ! 1) = [])"
proof -
  let ?doc = "example_document [JInt 1000, JInt 1010, JInt 1020] [JDouble 10]"
  let ?doc2 = "timestamps_only_document [JInt 1000]"
  have h1: "1 < chart_data_count two_symbols_one_done"
    by (simp add: chart_data_count_def two_symbols_one_done_def)
  have h2: "chart_data two_symbols_one_done ! 1 = init_slot ''BBB''"
    by (simp add: two_symbols_one_done_def init_slot_def)
  have h3: "status_code (ok_message ?doc) = SOUP_STATUS_OK"
    by (simp add: ok_message_def SOUP_STATUS_OK_def)
  have h4: "response_body (ok_message ?doc) = Parsed (Some ?doc)"
    by (simp add: ok_message_def)
  have h5: "node_at close_path (Some ?doc) = Some (JArray [JDouble 10])"
    by (simp add: example_document_paths)
  have h6: "node_at timestamp_path (Some ?doc) = Some (JArray [JInt 1000, JInt 1010, JInt 1020])"
    by (simp add: example_document_paths)
  have e1: "\<exists>c'. on_chart_data_received two_symbols_one_done 1 (ok_message ?doc) = Inr c'
           \<and> length (timestamps (chart_data c' ! 1)) = data_count (chart_data c' ! 1)
           \<and> length (prices (chart_data c' ! 1)) = 1
           \<and> length (prices (chart_data c' ! 1)) \<noteq> data_count (chart_data c' ! 1)"
    using extractor_array_lengths[OF h1 h2 h3 h4] h5 h6 by auto
  have g3: "status_code (ok_message ?doc2) = SOUP_STATUS_OK"
    by (simp add: ok_message_def SOUP_STATUS_OK_def)
  have g4: "response_body (ok_message ?doc2) = Parsed (Some ?doc2)"
    by (simp add: ok_message_def)
  have g5: "node_at close_path (Some ?doc2) = None"
    by (simp add: timestamps_only_document_paths)
  have e2: "\<exists>c'. on_chart_data_received two_symbols_one_done 1 (ok_message ?doc2) = Inr c'
           \<and> length (timestamps (chart_data c' ! 1)) = data_count (chart_data c' ! 1)
           \<and> prices (chart_data c' ! 1) = []"
    using extractor_array_lengths[OF h1 h2 g3 g4] g5 by auto
  show ?thesis
    using two_symbols_one_done_reached h1 h2 h3 h4 h5 h6 e1 g3 g4 g5 e2 by (intro conjI)
qed

text \<open>
  Claim C2 as stated fails: a response whose timestamp array has three elements and whose
  close array has one gives a series with \<open>data_count = 3\<close> and one price.
\<close>

theorem prices_length_counterexample:
  "on_chart_data_received (started [''IBM'']) 0
     (ok_message (example_document [JInt 1000, JInt 1010, JInt 1020] [JDouble 10]))
   = Inr \<lparr>window_visible = False,
          chart_data = [\<lparr>symbol = ''IBM'', prices = [10], timestamps = [1000, 1010, 1020],
                         data_count = 3, valid = True\<rparr>],
          chart_range = Some ''1d'', chart_interval = Some ''1m''\<rparr>
   \<and> length (prices \<lparr>symbol = ''IBM'', prices = [10], timestamps = [1000, 1010, 1020],
                      data_count = 3, valid = True\<rparr>)
       \<noteq> data_count \<lparr>symbol = ''IBM'', prices = [10], timestamps = [1000, 1010, 1020],
                       data_count = 3, valid = True\<rparr>"
  by (simp add: started_eval ok_message_handled extracted_example init_slot_def)

subsection \<open>Completions of a superseded fetch\<close>

lemma generation1_eval:
  "fst generation1 =
     \<lparr>window_visible = False,
      chart_data = [init_slot ''AAA'', init_slot ''BBB'', init_slot ''CCC''],
      chart_range = Some ''1d'', chart_interval = Some ''1m''\<rparr>"
  "snd generation1 ! 2 =
     \<lparr>req_url = ''https://query2.finance.yahoo.com/v8/finance/chart/CCC?interval=1m&range=1d'',
      req_index = 2\<rparr>"
  by (simp_all add: generation1_def fetch_chart_data_def Let_def free_chart_data_def
      invest_chart_new_def chart_request_def chart_url_def)

lemma generation2_eval:
  "fst generation2 =
     \<lparr>window_visible = False,
      chart_data = [init_slot ''AAA'', init_slot ''BBB'', init_slot ''CCC''],
      chart_range = Some ''5d'', chart_interval = Some ''5m''\<rparr>"
  by (simp add: generation2_def chart_range_button_clicked_def generation1_eval
      fetch_chart_data_def Let_def free_chart_data_def)

text \<open>
  Claim C1 as stated fails. A fetch for three symbols is started, then a second one by a
  change of range while the first is in flight; the completion of the first fetch's request
  for the third symbol, arriving afterwards, writes \<open>prices\<close>, \<open>timestamps\<close>, \<open>data_count\<close>
  and \<open>valid\<close> into the third slot of the second fetch's collection.
\<close>

theorem stale_completion_counterexample:
  "req_url (snd generation1 ! 2)
     = ''https://query2.finance.yahoo.com/v8/finance/chart/CCC?interval=1m&range=1d''
   \<and> chart_data (fst generation2)
       = [\<lparr>symbol = ''AAA'', prices = [], timestamps = [], data_count = 0, valid = False\<rparr>,
          \<lparr>symbol = ''BBB'', prices = [], timestamps = [], data_count = 0, valid = False\<rparr>,
          \<lparr>symbol = ''CCC'', prices = [], timestamps = [], data_count = 0, valid = False\<rparr>]
   \<and> on_chart_data_received (fst generation2) (req_index (snd generation1 ! 2))
         (ok_message (example_document [JInt 1000, JInt 1010, JInt 1020]
                        [JDouble 10, JDouble 11, JDouble 12]))
       = Inr \<lparr>window_visible = False,
              chart_data =
                [\<lparr>symbol = ''AAA'', prices = [], timestamps = [], data_count = 0, valid = False\<rparr>,
                 \<lparr>symbol = ''BBB'', prices = [], timestamps = [], data_count = 0, valid = False\<rparr>,
                 \<lparr>symbol = ''CCC'', prices = [10, 11, 12], timestamps = [1000, 1010, 1020],
                  data_count = 3, valid = True\<rparr>],
              chart_range = Some ''5d'', chart_interval = Some ''5m''\<rparr>"
  by (simp add: generation1_eval generation2_eval ok_message_handled extracted_example
      init_slot_def)

lemma on_chart_data_received_failed:
  "status_code msg \<noteq> SOUP_STATUS_OK \<or> response_body msg = ParseError \<Longrightarrow>
   on_chart_data_received c i msg = Inr c"
  by (auto simp: on_chart_data_received_def)

lemma extracted_record:
  "extracted r d =
     \<lparr>symbol = symbol d,
      prices = (case node_at close_path r of Some (JArray cl) \<Rightarrow> map price_of cl | _ \<Rightarrow> prices d),
      timestamps = (case node_at timestamp_path r of
                      Some (JArray ts) \<Rightarrow> map timestamp_of ts | _ \<Rightarrow> timestamps d),
      data_count = (case node_at timestamp_path r of
                      Some (JArray ts) \<Rightarrow> length ts | _ \<Rightarrow> data_count d),
      valid = (case node_at close_path r of Some (JArray cl) \<Rightarrow> True | _ \<Rightarrow> valid d)\<rparr>"
  by (rule StockChartData.equality) (simp_all add: extracted_fields)

text \<open>
  Claim C1, as amended. The completion context holds the chart and the slot index only, and
  the handler does not tell a completion of a superseded fetch from a current one. When the
  slot index of a request of an earlier fetch exists in the collection that is current when
  the completion arrives, whatever that collection holds, the handler returns and the
  completion is applied to that slot of the current collection:
  \<^item> with an OK status and a parsed body, \<open>timestamps\<close> and \<open>data_count\<close> of the slot are
    written from the timestamp array of the body when it has one, and are kept when it has
    none; \<open>prices\<close> is written from the close array and \<open>valid\<close> is set when the body
    has one, and both are kept when it has none; the symbol of the slot, the other slots
    and the rest of the chart are unchanged;
  \<^item> with a status that is not OK, or a body that does not parse, the chart is unchanged.
\<close>

theorem stale_completion_is_applied:
  assumes "req \<in> set (snd (fetch_chart_data (Some symbols1) c0))"
    and "req_index req < chart_data_count c"
  shows "(status_code msg = SOUP_STATUS_OK \<and> response_body msg = Parsed r \<longrightarrow>
            on_chart_data_received c (req_index req) msg =
              Inr (c\<lparr>chart_data := (chart_data c)
                     [req_index req :=
                        \<lparr>symbol = symbol (chart_data c ! req_index req),
                         prices = (case node_at close_path r of
                                     Some (JArray cl) \<Rightarrow> map price_of cl
                                   | _ \<Rightarrow> prices (chart_data c ! req_index req)),
                         timestamps = (case node_at timestamp_path r of
                                         Some (JArray ts) \<Rightarrow> map timestamp_of ts
                                       | _ \<Rightarrow> timestamps (chart_data c ! req_index req)),
                         data_count = (case node_at timestamp_path r of
                                         Some (JArray ts) \<Rightarrow> length ts
                                       | _ \<Rightarrow> data_count (chart_data c ! req_index req)),
                         valid = (case node_at close_path r of
                                    Some (JArray cl) \<Rightarrow> True
                                  | _ \<Rightarrow> valid (chart_data c ! req_index req))\<rparr>]\<rparr>))
       \<and> (status_code msg \<noteq> SOUP_STATUS_OK \<or> response_body msg = ParseError \<longrightarrow>
            on_chart_data_received c (req_index req) msg = Inr c)"
  using assms(2)
  by (auto simp: on_chart_data_received_extracted chart_data_count_def extracted_record
      on_chart_data_received_failed)


theorem stale_completion_is_applied_witness:
  "snd generation1 ! 2 \<in> set (snd (fetch_chart_data (Some [''AAA'', ''BBB'', ''CCC'']) invest_chart_new))
   \<and> req_index (snd generation1 ! 2) < chart_data_count (fst generation2)
   \<and> status_code (ok_message (example_document [JInt 1000, JInt 1010] [JDouble 10, JDouble 11]))
        = SOUP_STATUS_OK
   \<and> response_body (ok_message (example_document [JInt 1000, JInt 1010] [JDouble 10, JDouble 11]))
        = Parsed (Some (example_document [JInt 1000, JInt 1010] [JDouble 10, JDouble 11]))
   \<and> chart_data (fst generation2) ! 2
        = \<lparr>symbol = ''CCC'', prices = [], timestamps = [], data_count = 0, valid = False\<rparr>
   \<and> on_chart_data_received (fst generation2) (req_index (snd generation1 ! 2))
         (ok_message (example_document [JInt 1000, JInt 1010] [JDouble 10, JDouble 11]))
       = Inr ((fst generation2)
               \<lparr>chart_data :=
                  [\<lparr>symbol = ''AAA'', prices = [], timestamps = [], data_count = 0, valid = False\<rparr>,
                   \<lparr>symbol = ''BBB'', prices = [], timestamps = [], data_count = 0, valid = False\<rparr>,
                   \<lparr>symbol = ''CCC'', prices = [10, 11], timestamps = [1000, 1010],
                    data_count = 2, valid = True\<rparr>]\<rparr>)
   \<and> status_code (ok_message (JObject [])) = SOUP_STATUS_OK
   \<and> response_body (ok_message (JObject [])) = Parsed (Some (JObject []))
   \<and> on_chart_data_received (fst generation2) (req_index (snd generation1 ! 2))
         (ok_message (JObject []))
       = Inr (fst generation2)
   \<and> status_code failed_message \<noteq> SOUP_STATUS_OK
   \<and> on_chart_data_received (fst generation2) (req_index (snd generation1 ! 2)) failed_message
       = Inr (fst generation2)"
proof -
  let ?syms = "[''AAA'', ''BBB'', ''CCC'']"
  let ?ts = "[JInt 1000, JInt 1010]"
  let ?cl = "[JDouble 10, JDouble 11]"
  let ?doc = "example_document ?ts ?cl"
  let ?i = "req_index (snd generation1 ! 2)"
  have len: "length (snd generation1) = 3"
    by (simp add: generation1_def fetch_chart_data_def Let_def)
  have h1: "snd generation1 ! 2 \<in> set (snd (fetch_chart_data (Some ?syms) invest_chart_new))"
    unfolding generation1_def[symmetric] using len by simp
  have h2: "?i < chart_data_count (fst generation2)"
    by (simp add: generation1_eval generation2_eval chart_data_count_def)
  have h3: "status_code (ok_message ?doc) = SOUP_STATUS_OK"
    by (simp add: ok_message_def SOUP_STATUS_OK_def)
  have h4: "response_body (ok_message ?doc) = Parsed (Some ?doc)"
    by (simp add: ok_message_def)
  have h5: "status_code failed_message \<noteq> SOUP_STATUS_OK"
    by (simp add: failed_message_def SOUP_STATUS_OK_def)
  have c5: "chart_data (fst generation2) ! 2
        = \<lparr>symbol = ''CCC'', prices = [], timestamps = [], data_count = 0, valid = False\<rparr>"
    by (simp add: generation2_eval init_slot_def)
  have ok: "on_chart_data_received (fst generation2) ?i (ok_message ?doc) =
              Inr ((fst generation2)\<lparr>chart_data := (chart_data (fst generation2))
                     [?i :=
                        \<lparr>symbol = symbol (chart_data (fst generation2) ! ?i),
                         prices = (case node_at close_path (Some ?doc) of
                                     Some (JArray cl) \<Rightarrow> map price_of cl
                                   | _ \<Rightarrow> prices (chart_data (fst generation2) ! ?i)),
                         timestamps = (case node_at timestamp_path (Some ?doc) of
                                         Some (JArray ts) \<Rightarrow> map timestamp_of ts
                                       | _ \<Rightarrow> timestamps (chart_data (fst generation2) ! ?i)),
                         data_count = (case node_at timestamp_path (Some ?doc) of
                                         Some (JArray ts) \<Rightarrow> length ts
                                       | _ \<Rightarrow> data_count (chart_data (fst generation2) ! ?i)),
                         valid = (case node_at close_path (Some ?doc) of
                                    Some (JArray cl) \<Rightarrow> True
                                  | _ \<Rightarrow> valid (chart_data (fst generation2) ! ?i))\<rparr>]\<rparr>)"
    using stale_completion_is_applied[OF h1 h2, of "ok_message ?doc" "Some ?doc"] h3 h4 by blast
  have rhs: "(chart_data (fst generation2))
                     [?i :=
                        \<lparr>symbol = symbol (chart_data (fst generation2) ! ?i),
                         prices = (case node_at close_path (Some ?doc) of
                                     Some (JArray cl) \<Rightarrow> map price_of cl
                                   | _ \<Rightarrow> prices (chart_data (fst generation2) ! ?i)),
                         timestamps = (case node_at timestamp_path (Some ?doc) of
                                         Some (JArray ts) \<Rightarrow> map timestamp_of ts
                                       | _ \<Rightarrow> timestamps (chart_data (fst generation2) ! ?i)),
                         data_count = (case node_at timestamp_path (Some ?doc) of
                                         Some (JArray ts) \<Rightarrow> length ts
                                       | _ \<Rightarrow> data_count (chart_data (fst generation2) ! ?i)),
                         valid = (case node_at close_path (Some ?doc) of
                                    Some (JArray cl) \<Rightarrow> True
                                  | _ \<Rightarrow> valid (chart_data (fst generation2) ! ?i))\<rparr>]
             = [\<lparr>symbol = ''AAA'', prices = [], timestamps = [], data_count = 0, valid = False\<rparr>,
                \<lparr>symbol = ''BBB'', prices = [], timestamps = [], data_count = 0, valid = False\<rparr>,
                \<lparr>symbol = ''CCC'', prices = [10, 11], timestamps = [1000, 1010],
                 data_count = 2, valid = True\<rparr>]"
    by (simp add: generation1_eval generation2_eval init_slot_def example_document_paths)
  have failed: "on_chart_data_received (fst generation2) ?i failed_message = Inr (fst generation2)"
    using stale_completion_is_applied[OF h1 h2, of failed_message None] h5 by blast
  have g3: "status_code (ok_message (JObject [])) = SOUP_STATUS_OK"
    by (simp add: ok_message_def SOUP_STATUS_OK_def)
  have g4: "response_body (ok_message (JObject [])) = Parsed (Some (JObject []))"
    by (simp add: ok_message_def)
  have empty: "on_chart_data_received (fst generation2) ?i (ok_message (JObject []))
                 = Inr (fst generation2)"
    using stale_completion_is_applied[OF h1 h2, of "ok_message (JObject [])" "Some (JObject [])"]
      g3 g4
    by (simp add: node_at_def timestamp_path_def close_path_def result_path_def
        generation1_eval generation2_eval init_slot_def)
  show ?thesis
    using h1 h2 h3 h4 c5 ok[unfolded rhs] g3 g4 empty h5 failed by (intro conjI)
qed

subsection \<open>The summary handler\<close>

lemma meta_double_code:
  "first_result r = Some result \<Longrightarrow>
   json_object_get_object_member (Some result) ''meta'' = Some m \<Longrightarrow>
   json_object_get_double_member (Some m) name = meta_double r name"
  unfolding first_result_path
  by (auto simp: meta_double_def meta_path_def node_at_append json_object_get_object_member_def
      json_object_get_member_def json_object_get_double_member_def
      split: option.splits json.splits)

lemma meta_double_no_result:
  "first_result r = None \<Longrightarrow> meta_double r name = 0"
proof -
  assume n: "first_result r = None"
  have "node_at result_path r \<noteq> Some (JObject res)" for res
    using first_result_path[of r res] n by simp
  then show ?thesis
    by (auto simp: meta_double_def meta_path_def node_at_append
        split: option.splits dest: json_step_KeyD)
qed

lemma meta_double_no_meta:
  "first_result r = Some result \<Longrightarrow>
   json_object_get_object_member (Some result) ''meta'' = None \<Longrightarrow>
   meta_double r name = 0"
  unfolding first_result_path
  by (auto simp: meta_double_def meta_path_def node_at_append json_object_get_object_member_def
      json_object_get_member_def
      split: option.splits json.splits dest: json_step_KeyD)

lemma parse_stock_parsed:
  assumes "status_code msg = SOUP_STATUS_OK" and "response_body msg = Parsed r"
  shows "parse_stock fp applet i msg =
           (if meta_double r ''regularMarketPrice'' > 0 \<and> meta_double r ''previousClose'' > 0
            then store_stock applet i (meta_double r ''regularMarketPrice'')
                   (double_mul fp
                     (double_div fp
                       (double_sub fp (meta_double r ''regularMarketPrice'')
                          (meta_double r ''previousClose''))
                       (meta_double r ''previousClose''))
                     100)
            else Inr applet)"
proof (cases "first_result r")
  case None
  then show ?thesis using assms
    by (simp add: parse_stock_def meta_double_no_result)
next
  case (Some result)
  show ?thesis
  proof (cases "json_object_get_object_member (Some result) ''meta''")
    case None
    then show ?thesis using assms Some
      by (simp add: parse_stock_def meta_double_no_meta[OF Some None])
  next
    case (Some m)
    then show ?thesis using assms \<open>first_result r = Some result\<close>
      by (simp add: parse_stock_def Let_def meta_double_code[OF \<open>first_result r = Some result\<close> Some])
  qed
qed

lemma parse_stock_failed:
  "status_code msg \<noteq> SOUP_STATUS_OK \<or> response_body msg = ParseError \<Longrightarrow>
   parse_stock fp applet i msg = Inr applet"
  by (auto simp: parse_stock_def)


lemma tooltip_lines_total:
  "arrays_sized a \<Longrightarrow> \<forall>i \<in> set is. i < total_symbols a \<Longrightarrow> \<exists>ls. tooltip_lines a is = Inr ls"
proof (induction "is")
  case Nil
  then show ?case by simp
next
  case (Cons i rest)
  then obtain ls where "tooltip_lines a rest = Inr ls" by auto
  moreover have "i < total_symbols a" using Cons.prems by simp
  ultimately show ?case using Cons.prems(1)
    by (simp add: arrays_sized_def array_get_def)
qed

lemma create_stock_tooltip_total:
  "arrays_sized a \<Longrightarrow> \<exists>t. create_stock_tooltip a = Inr t"
proof -
  assume s: "arrays_sized a"
  obtain ls where "tooltip_lines a [0..<total_symbols a] = Inr ls"
    using tooltip_lines_total[OF s, of "[0..<total_symbols a]"] by auto
  then show ?thesis by (simp add: create_stock_tooltip_def)
qed

lemma display_stock_at_index_total:
  "arrays_sized a \<Longrightarrow>
   \<exists>a'. display_stock_at_index a k = Inr a' \<and> stock_prices a' = stock_prices a
        \<and> stock_changes a' = stock_changes a \<and> stock_valid a' = stock_valid a
        \<and> stock_symbols a' = stock_symbols a \<and> total_symbols a' = total_symbols a"
  by (auto simp: display_stock_at_index_def arrays_sized_def array_get_def update_applet_text_def)

lemma all_requests_done_total:
  assumes "arrays_sized a"
  shows "\<exists>a'. all_requests_done a = Inr a' \<and> stock_prices a' = stock_prices a
        \<and> stock_changes a' = stock_changes a \<and> stock_valid a' = stock_valid a
        \<and> stock_symbols a' = stock_symbols a \<and> total_symbols a' = total_symbols a"
proof (cases "total_symbols a > 0")
  case False
  then show ?thesis by (simp add: all_requests_done_def update_applet_text_def)
next
  case True
  let ?a1 = "(clear_timeout a)\<lparr>cycle_position := 0\<rparr>"
  have s1: "arrays_sized ?a1" using assms by (simp add: arrays_sized_def clear_timeout_def)
  have f1: "stock_prices ?a1 = stock_prices a" "stock_changes ?a1 = stock_changes a"
    "stock_valid ?a1 = stock_valid a" "stock_symbols ?a1 = stock_symbols a"
    "total_symbols ?a1 = total_symbols a" by (simp_all add: clear_timeout_def)
  obtain vi where vi: "get_valid_stock_indices ?a1 = Inr vi"
    using s1 by (simp add: get_valid_stock_indices_def arrays_sized_def)
  show ?thesis
  proof (cases "length vi > 0")
    case False
    then show ?thesis using True vi f1
      by (simp add: all_requests_done_def Let_def update_applet_text_def)
  next
    case nonempty: True
    obtain a2 where a2: "display_stock_at_index ?a1 (vi ! 0) = Inr a2"
      "stock_prices a2 = stock_prices ?a1" "stock_changes a2 = stock_changes ?a1"
      "stock_valid a2 = stock_valid ?a1" "stock_symbols a2 = stock_symbols ?a1"
      "total_symbols a2 = total_symbols ?a1"
      using display_stock_at_index_total[OF s1, of "vi ! 0"] by auto
    let ?a3 = "if \<not> cycle_timeout_id a2 \<and> length vi > 1
               then a2\<lparr>cycle_timeout_id := True\<rparr> else a2"
    have s3: "arrays_sized ?a3" using s1 a2 by (simp add: arrays_sized_def)
    obtain t where t: "create_stock_tooltip ?a3 = Inr t"
      using create_stock_tooltip_total[OF s3] by auto
    have "all_requests_done a = Inr (?a3\<lparr>tooltip := Some t\<rparr>)"
      using True vi nonempty a2(1) t
      by (simp add: all_requests_done_def Let_def)
    then show ?thesis using a2 f1 by simp
  qed
qed

lemma store_stock_sized:
  "arrays_sized a \<Longrightarrow> i < total_symbols a \<Longrightarrow>
   store_stock a i p c =
     Inr (a\<lparr>stock_prices := (stock_prices a)[i := p], stock_changes := (stock_changes a)[i := c],
           stock_valid := (stock_valid a)[i := True]\<rparr>)"
  by (simp add: store_stock_def arrays_sized_def)

lemma update_stocks_fresh:
  "symbols \<noteq> [] \<Longrightarrow>
   arrays_sized (fst (invest_applet_update_stocks (Some symbols) a0))
   \<and> total_symbols (fst (invest_applet_update_stocks (Some symbols) a0)) = length symbols
   \<and> stock_prices (fst (invest_applet_update_stocks (Some symbols) a0)) = replicate (length symbols) 0
   \<and> stock_changes (fst (invest_applet_update_stocks (Some symbols) a0)) = replicate (length symbols) 0
   \<and> stock_valid (fst (invest_applet_update_stocks (Some symbols) a0)) = replicate (length symbols) False"
  by (simp add: invest_applet_update_stocks_def Let_def arrays_sized_def clear_timeout_def
      free_stock_data_def)

lemma on_stock_data_received_arrays:
  assumes "arrays_sized a" and "parse_stock fp a i msg = Inr a1" and "arrays_sized a1"
  shows "\<exists>a'. on_stock_data_received fp a i msg = Inr a' \<and> stock_prices a' = stock_prices a1
        \<and> stock_changes a' = stock_changes a1 \<and> stock_valid a' = stock_valid a1
        \<and> stock_symbols a' = stock_symbols a1 \<and> total_symbols a' = total_symbols a1"
proof -
  let ?a2 = "a1\<lparr>pending_requests := pending_requests a1 - 1\<rparr>"
  have s2: "arrays_sized ?a2" using assms(3) by (simp add: arrays_sized_def)
  show ?thesis
    using all_requests_done_total[OF s2] assms(2)
    by (auto simp: on_stock_data_received_def Let_def)
qed

lemma summary_document_values:
  "meta_double (Some (summary_document p q)) ''regularMarketPrice'' = json_node_get_double p"
  "meta_double (Some (summary_document p q)) ''previousClose'' = json_node_get_double q"
  by (simp_all add: meta_double_def meta_path_def result_path_def node_at_def summary_document_def)

lemma one_symbol_done_reached:
  "on_stock_data_received exact_ops
     (fst (invest_applet_update_stocks (Some [''IBM'', ''AAPL'']) new_applet)) 0
     (ok_message (summary_document (JDouble 150) (JDouble 100)))
   = Inr one_symbol_done"
  by (simp add: on_stock_data_received_def parse_stock_parsed[where r = "Some (summary_document (JDouble 150) (JDouble 100))"]
      ok_message_def SOUP_STATUS_OK_def summary_document_values store_stock_def
      invest_applet_update_stocks_def Let_def free_stock_data_def clear_timeout_def new_applet_def
      exact_ops_def one_symbol_done_def numeral_2_eq_2)

text \<open>
  Claim C8. A summary completion for slot \<open>i\<close>, handled on any applet whose arrays hold
  one element per symbol (as they do from the refresh on, whatever completions were handled
  before): the handler returns and the arrays keep their size. When the response is OK,
  parses, and both \<open>regularMarketPrice\<close> and \<open>previousClose\<close> are strictly positive,
  slot \<open>i\<close> is marked valid and holds the price and the percent change
  \<open>((current - previousClose) / previousClose) * 100\<close>, the result of the machine's
  three operations on doubles, and the other slots are unchanged. In every other case the
  prices, the changes and the validity marks are all unchanged: nothing is stored, and a
  slot that was marked invalid stays so.
\<close>

theorem percent_change_only_when_positive:
  assumes "arrays_sized applet" and "i < total_symbols applet"
  shows "\<exists>a'. on_stock_data_received fp applet i msg = Inr a'
          \<and> arrays_sized a' \<and> total_symbols a' = total_symbols applet
          \<and> (\<forall>r. status_code msg = SOUP_STATUS_OK \<and> response_body msg = Parsed r
                 \<and> meta_double r ''regularMarketPrice'' > 0 \<and> meta_double r ''previousClose'' > 0
               \<longrightarrow> stock_valid a' = (stock_valid applet)[i := True]
                   \<and> stock_prices a' = (stock_prices applet)[i := meta_double r ''regularMarketPrice'']
                   \<and> stock_changes a' = (stock_changes applet)
                        [i := double_mul fp
                                (double_div fp
                                  (double_sub fp (meta_double r ''regularMarketPrice'')
                                     (meta_double r ''previousClose''))
                                  (meta_double r ''previousClose''))
                                100]
                   \<and> stock_valid a' ! i)
          \<and> (\<not> (\<exists>r. status_code msg = SOUP_STATUS_OK \<and> response_body msg = Parsed r
                 \<and> meta_double r ''regularMarketPrice'' > 0 \<and> meta_double r ''previousClose'' > 0)
               \<longrightarrow> stock_prices a' = stock_prices applet
                   \<and> stock_changes a' = stock_changes applet
                   \<and> stock_valid a' = stock_valid applet)"
proof -
  note sized = assms(1)
  have bounds: "i < length (stock_prices applet)" "i < length (stock_changes applet)"
      "i < length (stock_valid applet)"
    using assms by (simp_all add: arrays_sized_def)
  show ?thesis
  proof (cases "\<exists>r. status_code msg = SOUP_STATUS_OK \<and> response_body msg = Parsed r
                 \<and> meta_double r ''regularMarketPrice'' > 0 \<and> meta_double r ''previousClose'' > 0")
    case True
    then obtain r where r: "status_code msg = SOUP_STATUS_OK" "response_body msg = Parsed r"
      "meta_double r ''regularMarketPrice'' > 0" "meta_double r ''previousClose'' > 0" by auto
    let ?cur = "meta_double r ''regularMarketPrice''"
    let ?prev = "meta_double r ''previousClose''"
    let ?chg = "double_mul fp (double_div fp (double_sub fp ?cur ?prev) ?prev) 100"
    let ?a1 = "applet\<lparr>stock_prices := (stock_prices applet)[i := ?cur],
                 stock_changes := (stock_changes applet)[i := ?chg],
                 stock_valid := (stock_valid applet)[i := True]\<rparr>"
    have p: "parse_stock fp applet i msg = Inr ?a1"
      using r sized assms(2) by (simp add: parse_stock_parsed store_stock_sized)
    have s1: "arrays_sized ?a1" using sized by (simp add: arrays_sized_def)
    obtain a' where a': "on_stock_data_received fp applet i msg = Inr a'"
      "stock_prices a' = stock_prices ?a1" "stock_changes a' = stock_changes ?a1"
      "stock_valid a' = stock_valid ?a1" "stock_symbols a' = stock_symbols ?a1"
      "total_symbols a' = total_symbols ?a1"
      using on_stock_data_received_arrays[OF sized p s1] by auto
    have s': "arrays_sized a'" using a' s1 by (simp add: arrays_sized_def)
    have tot: "total_symbols a' = total_symbols applet" using a'(6) by simp
    have A: "\<forall>r. status_code msg = SOUP_STATUS_OK \<and> response_body msg = Parsed r
                 \<and> meta_double r ''regularMarketPrice'' > 0 \<and> meta_double r ''previousClose'' > 0
               \<longrightarrow> stock_valid a' = (stock_valid applet)[i := True]
                   \<and> stock_prices a' = (stock_prices applet)[i := meta_double r ''regularMarketPrice'']
                   \<and> stock_changes a' = (stock_changes applet)
                        [i := double_mul fp
                                (double_div fp
                                  (double_sub fp (meta_double r ''regularMarketPrice'')
                                     (meta_double r ''previousClose''))
                                  (meta_double r ''previousClose''))
                                100]
                   \<and> stock_valid a' ! i"
    proof (intro allI impI)
      fix r'
      assume "status_code msg = SOUP_STATUS_OK \<and> response_body msg = Parsed r'
                 \<and> meta_double r' ''regularMarketPrice'' > 0 \<and> meta_double r' ''previousClose'' > 0"
      then have "r' = r" using r(2) by simp
      then show "stock_valid a' = (stock_valid applet)[i := True]
                   \<and> stock_prices a' = (stock_prices applet)[i := meta_double r' ''regularMarketPrice'']
                   \<and> stock_changes a' = (stock_changes applet)
                        [i := double_mul fp
                                (double_div fp
                                  (double_sub fp (meta_double r' ''regularMarketPrice'')
                                     (meta_double r' ''previousClose''))
                                  (meta_double r' ''previousClose''))
                                100]
                   \<and> stock_valid a' ! i"
        using a'(2,3,4) bounds(3) by simp
    qed
    have B: "\<not> (\<exists>r. status_code msg = SOUP_STATUS_OK \<and> response_body msg = Parsed r
                 \<and> meta_double r ''regularMarketPrice'' > 0 \<and> meta_double r ''previousClose'' > 0)
               \<longrightarrow> stock_prices a' = stock_prices applet
                   \<and> stock_changes a' = stock_changes applet
                   \<and> stock_valid a' = stock_valid applet"
      using True by blast
    show ?thesis
      using a'(1) s' tot A B by (intro exI[of _ a'] conjI)
  next
    case False
    have p: "parse_stock fp applet i msg = Inr applet"
    proof (cases "status_code msg \<noteq> SOUP_STATUS_OK \<or> response_body msg = ParseError")
      case True
      then show ?thesis by (rule parse_stock_failed)
    next
      case ok: False
      then obtain r where "status_code msg = SOUP_STATUS_OK" "response_body msg = Parsed r"
        by (cases "response_body msg") auto
      then show ?thesis using False by (auto simp: parse_stock_parsed)
    qed
    obtain a' where a': "on_stock_data_received fp applet i msg = Inr a'"
      "stock_prices a' = stock_prices applet" "stock_changes a' = stock_changes applet"
      "stock_valid a' = stock_valid applet" "stock_symbols a' = stock_symbols applet"
      "total_symbols a' = total_symbols applet"
      using on_stock_data_received_arrays[OF sized p sized] by auto
    have s': "arrays_sized a'" using a' sized by (simp add: arrays_sized_def)
    have A: "\<forall>r. status_code msg = SOUP_STATUS_OK \<and> response_body msg = Parsed r
                 \<and> meta_double r ''regularMarketPrice'' > 0 \<and> meta_double r ''previousClose'' > 0
               \<longrightarrow> stock_valid a' = (stock_valid applet)[i := True]
                   \<and> stock_prices a' = (stock_prices applet)[i := meta_double r ''regularMarketPrice'']
                   \<and> stock_changes a' = (stock_changes applet)
                        [i := double_mul fp
                                (double_div fp
                                  (double_sub fp (meta_double r ''regularMarketPrice'')
                                     (meta_double r ''previousClose''))
                                  (meta_double r ''previousClose''))
                                100]
                   \<and> stock_valid a' ! i"
      using False by blast
    have B: "\<not> (\<exists>r. status_code msg = SOUP_STATUS_OK \<and> response_body msg = Parsed r
                 \<and> meta_double r ''regularMarketPrice'' > 0 \<and> meta_double r ''previousClose'' > 0)
               \<longrightarrow> stock_prices a' = stock_prices applet
                   \<and> stock_changes a' = stock_changes applet
                   \<and> stock_valid a' = stock_valid applet"
      using a'(2,3,4) by simp
    show ?thesis
      using a'(1) s' a'(6) A B by (intro exI[of _ a'] conjI)
  qed
qed

theorem percent_change_only_when_positive_witness:
  "on_stock_data_received exact_ops
     (fst (invest_applet_update_stocks (Some [''IBM'', ''AAPL'']) new_applet)) 0
     (ok_message (summary_document (JDouble 150) (JDouble 100)))
     = Inr one_symbol_done
   \<and> arrays_sized one_symbol_done \<and> 1 < total_symbols one_symbol_done
   \<and> status_code (ok_message (summary_document (JDouble 110) (JDouble 88))) = SOUP_STATUS_OK
   \<and> meta_double (Some (summary_document (JDouble 110) (JDouble 88))) ''regularMarketPrice'' = 110
   \<and> meta_double (Some (summary_document (JDouble 110) (JDouble 88))) ''previousClose'' = 88
   \<and> (\<exists>a'. on_stock_data_received exact_ops one_symbol_done 1
              (ok_message (summary_document (JDouble 110) (JDouble 88))) = Inr a'
          \<and> stock_valid a' = [True, True] \<and> stock_prices a' = [150, 110]
          \<and> stock_changes a' = [50, 25])
   \<and> status_code failed_message \<noteq> SOUP_STATUS_OK
   \<and> (\<exists>a'. on_stock_data_received exact_ops one_symbol_done 1 failed_message = Inr a'
          \<and> stock_valid a' = [True, False] \<and> stock_prices a' = [150, 0]
          \<and> stock_changes a' = [50, 0])"
proof -
  let ?doc = "summary_document (JDouble 110) (JDouble 88)"
  have h1: "arrays_sized one_symbol_done" and h2: "1 < total_symbols one_symbol_done"
    by (simp_all add: arrays_sized_def one_symbol_done_def)
  have h3: "status_code (ok_message ?doc) = SOUP_STATUS_OK"
    by (simp add: ok_message_def SOUP_STATUS_OK_def)
  have h4: "response_body (ok_message ?doc) = Parsed (Some ?doc)"
    by (simp add: ok_message_def)
  have m1: "meta_double (Some ?doc) ''regularMarketPrice'' = 110"
    and m2: "meta_double (Some ?doc) ''previousClose'' = 88"
    by (simp_all add: summary_document_values)
  have h5: "status_code failed_message \<noteq> SOUP_STATUS_OK"
    by (simp add: failed_message_def SOUP_STATUS_OK_def)
  obtain a' where a: "on_stock_data_received exact_ops one_symbol_done 1 (ok_message ?doc) = Inr a'"
    and pos: "\<forall>r. status_code (ok_message ?doc) = SOUP_STATUS_OK
                 \<and> response_body (ok_message ?doc) = Parsed r
                 \<and> meta_double r ''regularMarketPrice'' > 0 \<and> meta_double r ''previousClose'' > 0
               \<longrightarrow> stock_valid a' = (stock_valid one_symbol_done)[1 := True]
                   \<and> stock_prices a' = (stock_prices one_symbol_done)[1 := meta_double r ''regularMarketPrice'']
                   \<and> stock_changes a' = (stock_changes one_symbol_done)
                        [1 := double_mul exact_ops
                                (double_div exact_ops
                                  (double_sub exact_ops (meta_double r ''regularMarketPrice'')
                                     (meta_double r ''previousClose''))
                                  (meta_double r ''previousClose''))
                                100]
                   \<and> stock_valid a' ! 1"
    using percent_change_only_when_positive[OF h1 h2, of exact_ops "ok_message ?doc"] by blast
  have ok: "stock_valid a' = [True, True] \<and> stock_prices a' = [150, 110]
          \<and> stock_changes a' = [50, 25]"
    using pos[rule_format, of "Some ?doc"] h3 h4 unfolding m1 m2
    by (simp add: one_symbol_done_def exact_ops_def)
  obtain b' where b: "on_stock_data_received exact_ops one_symbol_done 1 failed_message = Inr b'"
    and neg: "\<not> (\<exists>r. status_code failed_message = SOUP_STATUS_OK \<and> response_body failed_message = Parsed r
                 \<and> meta_double r ''regularMarketPrice'' > 0 \<and> meta_double r ''previousClose'' > 0)
               \<longrightarrow> stock_prices b' = stock_prices one_symbol_done
                   \<and> stock_changes b' = stock_changes one_symbol_done
                   \<and> stock_valid b' = stock_valid one_symbol_done"
    using percent_change_only_when_positive[OF h1 h2, of exact_ops failed_message] by blast
  have failed: "stock_valid b' = [True, False] \<and> stock_prices b' = [150, 0]
          \<and> stock_changes b' = [50, 0]"
    using neg h5 by (simp add: one_symbol_done_def)
  have e1: "\<exists>a'. on_stock_data_received exact_ops one_symbol_done 1 (ok_message ?doc) = Inr a'
          \<and> stock_valid a' = [True, True] \<and> stock_prices a' = [150, 110]
          \<and> stock_changes a' = [50, 25]"
    using a ok by (intro exI[of _ a']) simp
  have e2: "\<exists>a'. on_stock_data_received exact_ops one_symbol_done 1 failed_message = Inr a'
          \<and> stock_valid a' = [True, False] \<and> stock_prices a' = [150, 0]
          \<and> stock_changes a' = [50, 0]"
    using b failed by (intro exI[of _ b']) simp
  show ?thesis
    using one_symbol_done_reached h1 h2 h3 m1 m2 e1 h5 e2 by (intro conjI)
qed

subsection \<open>The sorting loops\<close>

lemma swap_props:
  assumes "i < j" and "j < length a"
  shows "length (a[i := a ! j, j := a ! i]) = length a"
    and "mset (a[i := a ! j, j := a ! i]) = mset a"
    and "take i (a[i := a ! j, j := a ! i]) = take i a"
    and "mset (drop i (a[i := a ! j, j := a ! i])) = mset (drop i a)"
proof -
  show "length (a[i := a ! j, j := a ! i]) = length a" by simp
  show "mset (a[i := a ! j, j := a ! i]) = mset a"
    using mset_swap[of j a i] assms by simp
  show "take i (a[i := a ! j, j := a ! i]) = take i a"
    using assms by simp
  have d: "drop i (a[i := a ! j, j := a ! i])
            = (drop i a)[0 := drop i a ! (j - i), j - i := drop i a ! 0]"
    using assms by (simp add: drop_update_swap)
  show "mset (drop i (a[i := a ! j, j := a ! i])) = mset (drop i a)"
    unfolding d using mset_swap[of "j - i" "drop i a" 0] assms by simp
qed

lemma sort_inner_props:
  assumes "i < j" and "length a = n"
  shows "length (sort_inner a n i j) = n
       \<and> mset (sort_inner a n i j) = mset a
       \<and> take i (sort_inner a n i j) = take i a
       \<and> mset (drop i (sort_inner a n i j)) = mset (drop i a)
       \<and> ((\<forall>k. i < k \<and> k < j \<longrightarrow> current_price (a ! k) \<le> current_price (a ! i)) \<longrightarrow>
          (\<forall>k. i < k \<and> k < n \<longrightarrow>
             current_price (sort_inner a n i j ! k) \<le> current_price (sort_inner a n i j ! i)))"
  using assms
proof (induction a n i j rule: sort_inner.induct)
  case (1 a n i j)
  show ?case
  proof (cases "j < n")
    case False
    then have "sort_inner a n i j = a" by (subst sort_inner.simps) simp
    then show ?thesis using False "1.prems" by auto
  next
    case True
    let ?a' = "if current_price (a ! i) < current_price (a ! j)
               then a[i := a ! j, j := a ! i] else a"
    have jl: "j < length a" using True "1.prems" by simp
    have step: "sort_inner a n i j = sort_inner ?a' n i (Suc j)"
      using True by (subst sort_inner.simps) simp
    have len': "length ?a' = n" using "1.prems" by simp
    have IH: "length (sort_inner ?a' n i (Suc j)) = n
       \<and> mset (sort_inner ?a' n i (Suc j)) = mset ?a'
       \<and> take i (sort_inner ?a' n i (Suc j)) = take i ?a'
       \<and> mset (drop i (sort_inner ?a' n i (Suc j))) = mset (drop i ?a')
       \<and> ((\<forall>k. i < k \<and> k < Suc j \<longrightarrow> current_price (?a' ! k) \<le> current_price (?a' ! i)) \<longrightarrow>
          (\<forall>k. i < k \<and> k < n \<longrightarrow>
             current_price (sort_inner ?a' n i (Suc j) ! k)
               \<le> current_price (sort_inner ?a' n i (Suc j) ! i)))"
      using "1.IH"[OF True _ len'] "1.prems"(1) by simp
    have m: "mset ?a' = mset a" "take i ?a' = take i a" "mset (drop i ?a') = mset (drop i a)"
      using swap_props[OF "1.prems"(1) jl] by auto
    have inv: "(\<forall>k. i < k \<and> k < j \<longrightarrow> current_price (a ! k) \<le> current_price (a ! i)) \<Longrightarrow>
               (\<forall>k. i < k \<and> k < Suc j \<longrightarrow> current_price (?a' ! k) \<le> current_price (?a' ! i))"
    proof (intro allI impI)
      fix k
      assume h: "\<forall>k. i < k \<and> k < j \<longrightarrow> current_price (a ! k) \<le> current_price (a ! i)"
        and k: "i < k \<and> k < Suc j"
      show "current_price (?a' ! k) \<le> current_price (?a' ! i)"
      proof (cases "current_price (a ! i) < current_price (a ! j)")
        case sw: True
        have il: "i < length a" using "1.prems"(1) jl by simp
        show ?thesis
        proof (cases "k = j")
          case True
          then show ?thesis using sw "1.prems"(1) jl il by (simp add: nth_list_update)
        next
          case False
          then have "i < k \<and> k < j" using k by simp
          then have "current_price (a ! k) \<le> current_price (a ! i)" using h by blast
          then show ?thesis using sw False k "1.prems"(1) jl il by (simp add: nth_list_update)
        qed
      next
        case nsw: False
        show ?thesis
        proof (cases "k = j")
          case True
          then show ?thesis using nsw by simp
        next
          case False
          then have "i < k \<and> k < j" using k by simp
          then show ?thesis using nsw h by simp
        qed
      qed
    qed
    show ?thesis
      unfolding step using IH m inv by presburger
  qed
qed


lemma sort_inner_prefix_sorted:
  assumes inv: "prefix_sorted a i" and "Suc i < length a"
  shows "prefix_sorted (sort_inner a (length a) i (Suc i)) (Suc i)"
proof -
  let ?r = "sort_inner a (length a) i (Suc i)"
  have p: "length ?r = length a" "take i ?r = take i a" "mset (drop i ?r) = mset (drop i a)"
    "\<forall>k. i < k \<and> k < length a \<longrightarrow> current_price (?r ! k) \<le> current_price (?r ! i)"
    using sort_inner_props[of i "Suc i" a "length a"] by auto
  show ?thesis
    unfolding prefix_sorted_def
  proof (intro allI impI)
    fix k l
    assume h: "k < l \<and> l < length ?r \<and> k < Suc i"
    then have ll: "l < length a" using p(1) by simp
    show "current_price (?r ! l) \<le> current_price (?r ! k)"
    proof (cases "k = i")
      case True
      then show ?thesis using p(4) h ll by simp
    next
      case False
      then have ki: "k < i" using h by simp
      have rk: "?r ! k = a ! k"
        using ki nth_take[of k i ?r] nth_take[of k i a] p(2) by simp
      show ?thesis
      proof (cases "l < i")
        case True
        then have "?r ! l = a ! l"
          using nth_take[of l i ?r] nth_take[of l i a] p(2) by simp
        then show ?thesis using rk inv h ll ki unfolding prefix_sorted_def by simp
      next
        case False
        then have "?r ! l = drop i ?r ! (l - i)" using p(1) ll by simp
        moreover have "l - i < length (drop i ?r)" using False p(1) ll by simp
        ultimately have "?r ! l \<in> set (drop i ?r)" by (metis nth_mem)
        then have "?r ! l \<in> set (drop i a)" using p(3) by (metis set_mset_mset)
        then obtain m where m: "m < length (drop i a)" "drop i a ! m = ?r ! l"
          by (auto simp: in_set_conv_nth)
        then have "?r ! l = a ! (i + m)" "i + m < length a" "k < i + m"
          using ki by auto
        then show ?thesis using rk inv ki unfolding prefix_sorted_def by simp
      qed
    qed
  qed
qed

lemma sort_outer_props:
  assumes "length a = n" and "prefix_sorted a i"
  shows "mset (sort_outer a n i) = mset a
       \<and> sorted_wrt (\<lambda>x y. current_price y \<le> current_price x) (sort_outer a n i)"
  using assms
proof (induction a n i rule: sort_outer.induct)
  case (1 a n i)
  show ?case
  proof (cases "int i < int n - 1")
    case True
    let ?r = "sort_inner a n i (i + 1)"
    have step: "sort_outer a n i = sort_outer ?r n (Suc i)"
      using True by (subst sort_outer.simps) simp
    have si: "Suc i < length a" using True "1.prems"(1) by simp
    have len: "length ?r = n" and ms: "mset ?r = mset a"
      using sort_inner_props[of i "i + 1" a n] "1.prems"(1) by auto
    have inv: "prefix_sorted ?r (Suc i)"
      using sort_inner_prefix_sorted[OF "1.prems"(2) si] "1.prems"(1) by simp
    show ?thesis
      unfolding step using "1.IH"[OF True len inv] ms by simp
  next
    case False
    then have eq: "sort_outer a n i = a" by (subst sort_outer.simps) simp
    have "sorted_wrt (\<lambda>x y. current_price y \<le> current_price x) a"
      unfolding sorted_wrt_iff_nth_less
    proof (intro allI impI)
      fix k l assume "k < l" "l < length a"
      moreover from this have "k < i" using False "1.prems"(1) by simp
      ultimately show "current_price (a ! l) \<le> current_price (a ! k)"
        using "1.prems"(2) unfolding prefix_sorted_def by blast
    qed
    then show ?thesis using eq by simp
  qed
qed

lemma sort_outer_sorted:
  "mset (sort_outer a (length a) 0) = mset a
   \<and> sorted_wrt (\<lambda>x y. current_price y \<le> current_price x) (sort_outer a (length a) 0)"
  by (rule sort_outer_props) (simp_all add: prefix_sorted_def)

subsection \<open>The parts of a drawing\<close>

lemma legend_rows_append: "legend_rows (xs @ ys) = legend_rows xs @ legend_rows ys"
  by (induction xs rule: legend_rows.induct) simp_all

lemma stroke_colors_append: "stroke_colors (xs @ ys) = stroke_colors xs @ stroke_colors ys"
  by (induction xs rule: stroke_colors.induct) simp_all

lemma shows_message_simps:
  "shows_message [] = False"
  "shows_message (x # xs) = (is_message x \<or> shows_message xs)"
  by (simp_all add: shows_message_def)

lemma shows_message_append: "shows_message (xs @ ys) \<longleftrightarrow> shows_message xs \<or> shows_message ys"
  by (simp add: shows_message_def list_ex_append)

lemma legend_rows_concat:
  "(\<And>x. x \<in> set xs \<Longrightarrow> legend_rows (f x) = []) \<Longrightarrow> legend_rows (concat (map f xs)) = []"
  by (induction xs) (simp_all add: legend_rows_append)

lemma stroke_colors_concat:
  "(\<And>x. x \<in> set xs \<Longrightarrow> stroke_colors (f x) = []) \<Longrightarrow> stroke_colors (concat (map f xs)) = []"
  by (induction xs) (simp_all add: stroke_colors_append)

lemma shows_message_concat:
  "(\<And>x. x \<in> set xs \<Longrightarrow> \<not> shows_message (f x)) \<Longrightarrow> \<not> shows_message (concat (map f xs))"
  by (induction xs) (simp_all add: shows_message_append shows_message_simps)

lemma axes_plain:
  "legend_rows (draw_grid w h) = []" "stroke_colors (draw_grid w h) = []"
  "\<not> shows_message (draw_grid w h)"
  "legend_rows (price_labels h mn mx) = []" "stroke_colors (price_labels h mn mx) = []"
  "\<not> shows_message (price_labels h mn mx)"
  "legend_rows (time_labels c w h t0 t1) = []" "stroke_colors (time_labels c w h t0 t1) = []"
  "\<not> shows_message (time_labels c w h t0 t1)"
  unfolding draw_grid_def horizontal_grid_def vertical_grid_def price_labels_def time_labels_def
  by (simp_all add: legend_rows_append stroke_colors_append shows_message_append
      legend_rows_concat stroke_colors_concat shows_message_concat shows_message_simps Let_def)

lemma draw_points_plain:
  "draw_points d w mp ys j fp = Inr ops \<Longrightarrow>
   legend_rows ops = [] \<and> stroke_colors ops = [] \<and> \<not> shows_message ops"
proof (induction d w mp ys j fp arbitrary: ops rule: draw_points.induct)
  case (1 d w mp ys j fp)
  show ?case
  proof (cases "j < data_count d")
    case False
    then have "ops = []" using "1.prems" by (subst (asm) draw_points.simps) simp
    then show ?thesis by (simp add: shows_message_simps)
  next
    case True
    then show ?thesis
      using "1.prems" "1.IH"
      by (subst (asm) draw_points.simps)
         (auto simp: Let_def shows_message_simps split: sum.splits if_splits)
  qed
qed


lemma draw_stock_rows:
  assumes "draw_stock cd w mp ys i info = Inr ops"
  shows "legend_rows ops = [(symbol (cd ! index info),
                            prices (cd ! index info) ! (data_count (cd ! index info) - 1))]
       \<and> stroke_colors ops = [colors ! (i mod length colors)] \<and> \<not> shows_message ops"
proof -
  from assms obtain d line current where
    d: "array_get cd (index info) = Inr d"
    and line: "draw_points d w mp ys 0 True = Inr line"
    and cur: "array_get (prices d) (data_count d - 1) = Inr current"
    and ops: "ops = [SetSourceColor (colors ! (i mod length colors)), SetLineWidth 2] @ line
                @ [Stroke, MoveTo (Some (real_of_int (w - 200))) (Some (real_of_int (30 + int i * 20))),
                   ShowText (LegendText (symbol d) current)]"
    by (auto simp: draw_stock_def Let_def split: sum.splits)
  have "d = cd ! index info" using d by (simp add: array_get_def split: if_splits)
  moreover have "current = prices d ! (data_count d - 1)"
    using cur by (simp add: array_get_def split: if_splits)
  ultimately show ?thesis
    using draw_points_plain[OF line] ops
    by (simp add: legend_rows_append stroke_colors_append shows_message_append shows_message_simps)
qed

lemma draw_stocks_rows:
  "draw_stocks cd w mp ys k infos = Inr ops \<Longrightarrow>
   legend_rows ops = map (\<lambda>e. (symbol (cd ! index e),
                                 prices (cd ! index e) ! (data_count (cd ! index e) - 1))) infos
   \<and> stroke_colors ops = map (\<lambda>i. colors ! (i mod length colors)) [k..<k + length infos]
   \<and> \<not> shows_message ops"
proof (induction infos arbitrary: k ops)
  case Nil
  then show ?case by (simp add: shows_message_simps)
next
  case (Cons info rest)
  from Cons.prems obtain o1 o2 where
    o1: "draw_stock cd w mp ys k info = Inr o1"
    and o2: "draw_stocks cd w mp ys (Suc k) rest = Inr o2"
    and ops: "ops = o1 @ o2"
    by (auto split: sum.splits)
  have "[k..<k + length (info # rest)] = k # [Suc k..<Suc k + length rest]"
    by (simp add: upt_rec)
  then show ?case
    using draw_stock_rows[OF o1] Cons.IH[OF o2] ops
    by (simp add: legend_rows_append stroke_colors_append shows_message_append)
qed

lemma nth_Cons_shift: "Suc k \<le> n \<Longrightarrow> (d # ds) ! (n - k) = ds ! (n - Suc k)"
proof -
  assume "Suc k \<le> n"
  then have "n - k = Suc (n - Suc k)" by arith
  then show ?thesis by simp
qed

lemma collect_sort_info_entries:
  "collect_sort_info ds k = Inr si \<Longrightarrow>
   map (\<lambda>e. ds ! (index e - k)) si = filter qualifies ds
   \<and> (\<forall>e \<in> set si. k \<le> index e
         \<and> current_price e = prices (ds ! (index e - k)) ! (data_count (ds ! (index e - k)) - 1))"
proof (induction ds arbitrary: k si)
  case Nil
  then show ?case by simp
next
  case (Cons d ds)
  have shift: "map (\<lambda>e. (d # ds) ! (index e - k)) xs = map (\<lambda>e. ds ! (index e - Suc k)) xs"
    if "\<forall>e \<in> set xs. Suc k \<le> index e" for xs
    using that by (intro map_cong refl) (simp add: nth_Cons_shift)
  show ?case
  proof (cases "valid d \<and> data_count d > 0")
    case False
    then have c: "collect_sort_info ds (Suc k) = Inr si" using Cons.prems by auto
    note IH = Cons.IH[OF c]
    have nq: "\<not> qualifies d" using False by (simp add: qualifies_def)
    have m: "map (\<lambda>e. (d # ds) ! (index e - k)) si = filter qualifies (d # ds)"
      using shift[of si] IH nq by simp
    have "\<forall>e \<in> set si. k \<le> index e
         \<and> current_price e = prices ((d # ds) ! (index e - k))
                                ! (data_count ((d # ds) ! (index e - k)) - 1)"
      using IH by (auto simp: nth_Cons_shift)
    then show ?thesis using m by simp
  next
    case True
    then obtain p rest where p: "array_get (prices d) (data_count d - 1) = Inr p"
      and c: "collect_sort_info ds (Suc k) = Inr rest"
      and si: "si = \<lparr>index = k, current_price = p\<rparr> # rest"
      using Cons.prems by (auto split: sum.splits)
    note IH = Cons.IH[OF c]
    have pv: "p = prices d ! (data_count d - 1)"
      using p by (simp add: array_get_def split: if_splits)
    have q: "qualifies d" using True by (simp add: qualifies_def)
    have m: "map (\<lambda>e. (d # ds) ! (index e - k)) si = filter qualifies (d # ds)"
      using shift[of rest] IH q si by simp
    have "\<forall>e \<in> set rest. k \<le> index e
         \<and> current_price e = prices ((d # ds) ! (index e - k))
                                ! (data_count ((d # ds) ! (index e - k)) - 1)"
      using IH by (auto simp: nth_Cons_shift)
    then show ?thesis using m si pv by simp
  qed
qed

lemma placeholder_shows_message:
  "shows_message ([SetSourceRGB 1 1 1, Paint] @ draw_loading_message w h m)"
  by (simp add: draw_loading_message_def shows_message_simps)

lemma chart_draw_cb_parts:
  assumes "chart_draw_cb w h chart = Inr ops" and "\<not> shows_message ops"
  shows "\<exists>si series mn mx t0 t1 ys.
           collect_sort_info (chart_data chart) 0 = Inr si
         \<and> draw_stocks (chart_data chart) w mx ys 0 (sort_outer si (length si) 0) = Inr series
         \<and> ops = [SetSourceRGB 1 1 1, Paint] @ draw_grid w h
                  @ [SetSourceRGB 0 0 0, SelectFontFace ''Sans'', SetFontSize 10]
                  @ price_labels h mn mx @ time_labels chart w h t0 t1 @ series"
proof (cases "has_valid_data chart")
  case False
  then have "ops = [SetSourceRGB 1 1 1, Paint] @ draw_loading_message w h ''Loading chart data...''"
    using assms(1) by (simp add: chart_draw_cb_def)
  then show ?thesis using assms(2) placeholder_shows_message by simp
next
  case True
  then obtain min_price max_price min_time max_time where
    sc: "scan_series (chart_data chart) ((G_MAXDOUBLE, G_MINDOUBLE), (G_MAXINT64, G_MININT64))
          = Inr ((min_price, max_price), (min_time, max_time))"
  proof (cases "scan_series (chart_data chart)
                  ((G_MAXDOUBLE, G_MINDOUBLE), (G_MAXINT64, G_MININT64))")
    case (Inl e)
    then show ?thesis using assms(1) True by (simp add: chart_draw_cb_def)
  next
    case (Inr r)
    obtain a b c d where "r = ((a, b), (c, d))" by (metis prod.exhaust)
    then show ?thesis using Inr that by simp
  qed
  show ?thesis
  proof (cases "min_price = G_MAXDOUBLE \<or> max_price = G_MINDOUBLE
                \<or> min_time = G_MAXINT64 \<or> max_time = G_MININT64")
    case deg: True
    then have "ops = [SetSourceRGB 1 1 1, Paint]
                       @ draw_loading_message w h ''No chart data available''"
      using assms(1) True sc by (simp add: chart_draw_cb_def)
    then show ?thesis using assms(2) placeholder_shows_message by simp
  next
    case False
    then show ?thesis
      using assms(1) True sc
      by (simp add: chart_draw_cb_def Let_def split: sum.splits) blast
  qed
qed

subsection \<open>The draw pass of the example chart\<close>

lemma three_series_scan:
  "scan_series (chart_data three_series) ((G_MAXDOUBLE, G_MINDOUBLE), (G_MAXINT64, G_MININT64))
     = Inr ((10, 200), (1000, 1060))"
  by (simp add: three_series_def scan_prices.simps array_get_def scan_times_def MIN_of_def MAX_of_def
     G_MAXDOUBLE_def G_MINDOUBLE_def G_MAXINT64_def G_MININT64_def)

lemma three_series_collect:
  "collect_sort_info (chart_data three_series) 0 =
     Inr [\<lparr>index = 0, current_price = 50\<rparr>, \<lparr>index = 1, current_price = 200\<rparr>,
      \<lparr>index = 2, current_price = 10\<rparr>]"
  by (simp add: three_series_def array_get_def)

lemma three_series_valid: "has_valid_data three_series"
  by (simp add: has_valid_data_def qualifies_def three_series_def)

lemma three_series_range: "chart_range three_series = Some ''1d''"
  by (simp add: three_series_def)

lemma three_series_data:
  "chart_data three_series =
        [\<lparr>symbol = ''AAA'', prices = [49, 50], timestamps = [1000, 1060], data_count = 2,
          valid = True\<rparr>,
         \<lparr>symbol = ''BBB'', prices = [190, 200], timestamps = [1000, 1060], data_count = 2,
          valid = True\<rparr>,
         \<lparr>symbol = ''CCC'', prices = [12, 10], timestamps = [1000, 1060], data_count = 2,
          valid = True\<rparr>]"
  by (simp add: three_series_def)

lemma three_series_drawn: "chart_draw_cb 800 500 three_series = Inr three_series_drawing"
  unfolding chart_draw_cb_def three_series_scan three_series_collect Let_def
  by (simp add: three_series_valid three_series_range three_series_data
      G_MAXDOUBLE_def G_MINDOUBLE_def G_MAXINT64_def G_MININT64_def fdiv_def
      draw_grid_def horizontal_grid_def vertical_grid_def price_labels_def time_labels_def
      label_format_def signed_divide_int_def gint64_wrap_def upt_rec
      sort_outer.simps sort_inner.simps draw_stock_def array_get_def draw_points.simps
      colors_def three_series_drawing_def)

subsection \<open>Order of the legend and of the colours\<close>



subsection \<open>The grid\<close>

lemma nth_concat3:
  assumes "\<And>x. length (f x) = 3"
  shows "i < length xs \<Longrightarrow> k < 3 \<Longrightarrow> concat (map f xs) ! (3 * i + k) = f (xs ! i) ! k"
proof (induction xs arbitrary: i)
  case Nil
  then show ?case by simp
next
  case (Cons x xs)
  show ?case
  proof (cases i)
    case 0
    then show ?thesis using Cons.prems assms by (simp add: nth_append)
  next
    case (Suc j)
    then have "3 * i + k = 3 + (3 * j + k)" by simp
    then show ?thesis using Cons.prems Cons.IH[of j] assms Suc by (simp add: nth_append)
  qed
qed

lemma count_strokes:
  "count_list (horizontal_grid w h) Stroke = 11" "count_list (vertical_grid w h) Stroke = 11"
  by (simp_all add: horizontal_grid_def vertical_grid_def upt_rec Let_def)

lemma grid_strokes_append:
  "grid_strokes g (xs @ ys) = grid_strokes g xs + grid_strokes (grey_after g xs) ys"
proof (induction xs arbitrary: g)
  case Nil
  then show ?case by simp
next
  case (Cons x xs)
  then show ?case by (cases x) simp_all
qed

lemma grey_after_append: "grey_after g (xs @ ys) = grey_after (grey_after g xs) ys"
proof (induction xs arbitrary: g)
  case Nil
  then show ?case by simp
next
  case (Cons x xs)
  then show ?case by (cases x) simp_all
qed

lemma grid_strokes_grids:
  "grid_strokes True (horizontal_grid w h) = 11" "grey_after True (horizontal_grid w h) = True"
  "grid_strokes True (vertical_grid w h) = 11" "grey_after True (vertical_grid w h) = True"
  by (simp_all add: horizontal_grid_def vertical_grid_def upt_rec Let_def)

lemma grid_strokes_labels:
  "grid_strokes g (price_labels h mn mx) = 0" "grey_after g (price_labels h mn mx) = g"
  "grid_strokes g (time_labels c w h t0 t1) = 0" "grey_after g (time_labels c w h t0 t1) = g"
  by (simp_all add: price_labels_def time_labels_def upt_rec Let_def)

lemma draw_points_no_strokes:
  "draw_points d w mp ys j fp = Inr ops \<Longrightarrow> grid_strokes g ops = 0 \<and> grey_after g ops = g"
proof (induction d w mp ys j fp arbitrary: ops rule: draw_points.induct)
  case (1 d w mp ys j fp)
  show ?case
  proof (cases "j < data_count d")
    case False
    then have "ops = []" using "1.prems" by (subst (asm) draw_points.simps) simp
    then show ?thesis by simp
  next
    case True
    then show ?thesis
      using "1.prems" "1.IH"
      by (subst (asm) draw_points.simps)
         (auto simp: Let_def split: sum.splits if_splits)
  qed
qed

lemma draw_stock_no_grid_strokes:
  assumes "draw_stock cd w mp ys i info = Inr ops"
  shows "grid_strokes g ops = 0 \<and> grey_after g ops = False"
proof -
  from assms obtain d line current where
    line: "draw_points d w mp ys 0 True = Inr line"
    and ops: "ops = [SetSourceColor (colors ! (i mod length colors)), SetLineWidth 2] @ line
                @ [Stroke, MoveTo (Some (real_of_int (w - 200))) (Some (real_of_int (30 + int i * 20))),
                   ShowText (LegendText (symbol d) current)]"
    by (auto simp: draw_stock_def Let_def split: sum.splits)
  show ?thesis
    using draw_points_no_strokes[OF line, of False] ops
    by (simp add: grid_strokes_append grey_after_append)
qed

lemma draw_stocks_no_grid_strokes:
  "draw_stocks cd w mp ys k infos = Inr ops \<Longrightarrow> grid_strokes g ops = 0"
proof (induction infos arbitrary: k ops g)
  case Nil
  then show ?case by simp
next
  case (Cons info rest)
  from Cons.prems obtain o1 o2 where
    o1: "draw_stock cd w mp ys k info = Inr o1"
    and o2: "draw_stocks cd w mp ys (Suc k) rest = Inr o2"
    and ops: "ops = o1 @ o2"
    by (auto split: sum.splits)
  show ?case
    using draw_stock_no_grid_strokes[OF o1, of g] Cons.IH[OF o2, of False] ops
    by (simp add: grid_strokes_append)
qed

text \<open>
  Claim C9, as amended. A draw pass that returns without a placeholder starts, after the
  background, with the grid: exactly 11 horizontal and 11 vertical lines, one for each
  \<open>i\<close> from 0 to 10, the horizontal ones at \<open>y = 50 + i * (height - 100) / 10\<close> from
  \<open>x = 50\<close> to \<open>x = width - 50\<close>, the vertical ones at \<open>x = 50 + i * (width - 100) / 10\<close>
  from \<open>y = 50\<close> to \<open>y = height - 50\<close>: evenly spaced, with a line on each edge of the
  interior, which they divide into 10 bands each way. These are all the lines of the draw
  pass in the colour of the grid: right after the grid the colour is set to the black of
  the labels, the pass makes 22 strokes in the grey of the grid, 11 in each direction, and
  none after the grid.
\<close>

theorem eleven_gridlines:
  assumes "chart_draw_cb w h chart = Inr ops" and "\<not> shows_message ops"
  shows "(\<exists>rest. ops = [SetSourceRGB 1 1 1, Paint, SetSourceRGB 0.9 0.9 0.9, SetLineWidth 1]
                     @ horizontal_grid w h @ vertical_grid w h
                     @ [SetSourceRGB 0 0 0, SelectFontFace ''Sans'', SetFontSize 10] @ rest
                \<and> grid_strokes False rest = 0)
       \<and> grid_strokes False ops = 22
       \<and> grid_strokes True (horizontal_grid w h) = 11
       \<and> grid_strokes True (vertical_grid w h) = 11
       \<and> count_list (horizontal_grid w h) Stroke = 11
       \<and> count_list (vertical_grid w h) Stroke = 11
       \<and> (\<forall>i<11. horizontal_grid w h ! (3 * i)
                    = MoveTo (Some 50) (Some (50 + real i * (real_of_int (h - 100) / 10)))
                \<and> horizontal_grid w h ! (3 * i + 1)
                    = LineTo (Some (real_of_int (w - 50)))
                             (Some (50 + real i * (real_of_int (h - 100) / 10)))
                \<and> horizontal_grid w h ! (3 * i + 2) = Stroke
                \<and> vertical_grid w h ! (3 * i)
                    = MoveTo (Some (50 + real i * (real_of_int (w - 100) / 10))) (Some 50)
                \<and> vertical_grid w h ! (3 * i + 1)
                    = LineTo (Some (50 + real i * (real_of_int (w - 100) / 10)))
                             (Some (real_of_int (h - 50)))
                \<and> vertical_grid w h ! (3 * i + 2) = Stroke)"
proof -
  from chart_draw_cb_parts[OF assms] obtain si series mn mx t0 t1 ys where
    series: "draw_stocks (chart_data chart) w mx ys 0 (sort_outer si (length si) 0) = Inr series"
    and ops: "ops = [SetSourceRGB 1 1 1, Paint] @ draw_grid w h
                  @ [SetSourceRGB 0 0 0, SelectFontFace ''Sans'', SetFontSize 10]
                  @ price_labels h mn mx @ time_labels chart w h t0 t1 @ series"
    by blast
  let ?rest = "price_labels h mn mx @ time_labels chart w h t0 t1 @ series"
  have r0: "grid_strokes False ?rest = 0"
    using draw_stocks_no_grid_strokes[OF series, of False]
    by (simp add: grid_strokes_append grey_after_append grid_strokes_labels)
  have eq: "ops = [SetSourceRGB 1 1 1, Paint, SetSourceRGB 0.9 0.9 0.9, SetLineWidth 1]
                     @ horizontal_grid w h @ vertical_grid w h
                     @ [SetSourceRGB 0 0 0, SelectFontFace ''Sans'', SetFontSize 10] @ ?rest"
    using ops by (simp add: draw_grid_def)
  have a: "\<exists>rest. ops = [SetSourceRGB 1 1 1, Paint, SetSourceRGB 0.9 0.9 0.9, SetLineWidth 1]
                     @ horizontal_grid w h @ vertical_grid w h
                     @ [SetSourceRGB 0 0 0, SelectFontFace ''Sans'', SetFontSize 10] @ rest
                \<and> grid_strokes False rest = 0"
    using eq r0 by blast
  have total: "grid_strokes False ops = 22"
    unfolding eq using r0
    by (simp add: grid_strokes_append grey_after_append grid_strokes_grids)
  have b: "horizontal_grid w h ! (3 * i + k) =
             [MoveTo (Some 50) (Some (50 + real i * real_of_int (h - 100) / 10)),
              LineTo (Some (real_of_int (w - 50))) (Some (50 + real i * real_of_int (h - 100) / 10)),
              Stroke] ! k"
    and c: "vertical_grid w h ! (3 * i + k) =
             [MoveTo (Some (50 + real i * real_of_int (w - 100) / 10)) (Some 50),
              LineTo (Some (50 + real i * real_of_int (w - 100) / 10)) (Some (real_of_int (h - 50))),
              Stroke] ! k"
    if "i < 11" "k < 3" for i k
    using that unfolding horizontal_grid_def vertical_grid_def
    by (subst nth_concat3; simp add: Let_def)+
  have d: "\<forall>i<11. horizontal_grid w h ! (3 * i)
                    = MoveTo (Some 50) (Some (50 + real i * (real_of_int (h - 100) / 10)))
                \<and> horizontal_grid w h ! (3 * i + 1)
                    = LineTo (Some (real_of_int (w - 50)))
                             (Some (50 + real i * (real_of_int (h - 100) / 10)))
                \<and> horizontal_grid w h ! (3 * i + 2) = Stroke
                \<and> vertical_grid w h ! (3 * i)
                    = MoveTo (Some (50 + real i * (real_of_int (w - 100) / 10))) (Some 50)
                \<and> vertical_grid w h ! (3 * i + 1)
                    = LineTo (Some (50 + real i * (real_of_int (w - 100) / 10)))
                             (Some (real_of_int (h - 50)))
                \<and> vertical_grid w h ! (3 * i + 2) = Stroke"
    using b[of _ 0] b[of _ 1] b[of _ 2] c[of _ 0] c[of _ 1] c[of _ 2] by simp
  show ?thesis
    using a total grid_strokes_grids(1,3) count_strokes d by (intro conjI)
qed

theorem eleven_gridlines_witness:
  "chart_draw_cb 800 500 three_series = Inr three_series_drawing
   \<and> \<not> shows_message three_series_drawing
   \<and> (\<exists>rest. three_series_drawing
                = [SetSourceRGB 1 1 1, Paint, SetSourceRGB 0.9 0.9 0.9, SetLineWidth 1]
                   @ horizontal_grid 800 500 @ vertical_grid 800 500
                   @ [SetSourceRGB 0 0 0, SelectFontFace ''Sans'', SetFontSize 10] @ rest
             \<and> grid_strokes False rest = 0)
   \<and> grid_strokes False three_series_drawing = 22
   \<and> count_list (horizontal_grid 800 500) Stroke = 11
   \<and> count_list (vertical_grid 800 500) Stroke = 11
   \<and> horizontal_grid 800 500 ! (3 * 10) = MoveTo (Some 50) (Some 450)
   \<and> vertical_grid 800 500 ! (3 * 10) = MoveTo (Some 750) (Some 50)"
proof -
  have h2: "\<not> shows_message three_series_drawing"
    by (simp add: three_series_drawing_def shows_message_simps)
  note t = eleven_gridlines[OF three_series_drawn h2]
  have pos: "\<forall>i<11. horizontal_grid 800 500 ! (3 * i)
                    = MoveTo (Some 50) (Some (50 + real i * (real_of_int (500 - 100) / 10)))
                \<and> horizontal_grid 800 500 ! (3 * i + 1)
                    = LineTo (Some (real_of_int (800 - 50)))
                             (Some (50 + real i * (real_of_int (500 - 100) / 10)))
                \<and> horizontal_grid 800 500 ! (3 * i + 2) = Stroke
                \<and> vertical_grid 800 500 ! (3 * i)
                    = MoveTo (Some (50 + real i * (real_of_int (800 - 100) / 10))) (Some 50)
                \<and> vertical_grid 800 500 ! (3 * i + 1)
                    = LineTo (Some (50 + real i * (real_of_int (800 - 100) / 10)))
                             (Some (real_of_int (500 - 50)))
                \<and> vertical_grid 800 500 ! (3 * i + 2) = Stroke"
    using t by blast
  have last: "horizontal_grid 800 500 ! (3 * 10) = MoveTo (Some 50) (Some 450)"
     "vertical_grid 800 500 ! (3 * 10) = MoveTo (Some 750) (Some 50)"
    using pos[rule_format, of 10] by simp_all
  show ?thesis using t three_series_drawn h2 last by (intro conjI) blast+
qed

text \<open>
  Claim C9 as stated fails: the draw pass of the example chart strokes 11 horizontal and 11
  vertical grid lines, not 10.
\<close>

theorem ten_gridlines_counterexample:
  "chart_draw_cb 800 500 three_series = Inr three_series_drawing
   \<and> take 66 (drop 4 three_series_drawing) = horizontal_grid 800 500 @ vertical_grid 800 500
   \<and> count_list (horizontal_grid 800 500) Stroke = 11
   \<and> count_list (vertical_grid 800 500) Stroke = 11"
proof -
  have "take 66 (drop 4 three_series_drawing) = horizontal_grid 800 500 @ vertical_grid 800 500"
    by (simp add: three_series_drawing_def horizontal_grid_def vertical_grid_def upt_rec)
  then show ?thesis using three_series_drawn count_strokes by simp
qed

subsection \<open>The placeholder messages\<close>

lemma started_no_valid_data: "symbols \<noteq> [] \<Longrightarrow> \<not> has_valid_data (fst (fetch_chart_data (Some symbols) c0))"
  by (simp add: has_valid_data_def fetch_chart_data_slots list_ex_iff qualifies_def init_slot_def)

lemma zero_price_drawn:
  "chart_draw_cb 800 500 zero_price_series
     = Inr ([SetSourceRGB 1 1 1, Paint] @ draw_loading_message 800 500 ''No chart data available'')"
  by (simp add: chart_draw_cb_def has_valid_data_def qualifies_def zero_price_series_def
      scan_prices.simps array_get_def scan_times_def MIN_of_def MAX_of_def)

lemma MIN_of_min: "MIN_of a b = min a b"
  by (auto simp: MIN_of_def min_def)

lemma MAX_of_max: "MAX_of a b = max a b"
  by (auto simp: MAX_of_def max_def)

lemma fold_min_le: "fold (\<lambda>p a. min a p) xs (a::'a::linorder) \<le> a"
proof (induction xs arbitrary: a)
  case Nil
  then show ?case by simp
next
  case (Cons x xs)
  have "fold (\<lambda>p a. min a p) xs (min a x) \<le> min a x" by (rule Cons.IH)
  then show ?case by simp
qed

lemma fold_min_eq: "fold (\<lambda>p a. min a p) xs (a::'a::linorder) = a \<longleftrightarrow> list_all (\<lambda>p. a \<le> p) xs"
proof (induction xs arbitrary: a)
  case Nil
  then show ?case by simp
next
  case (Cons x xs)
  show ?case
  proof (cases "a \<le> x")
    case True
    then have "min a x = a" by simp
    then show ?thesis using Cons.IH[of a] True by simp
  next
    case False
    then have m: "min a x = x" by simp
    have "fold (\<lambda>p a. min a p) xs x \<le> x" by (rule fold_min_le)
    then have "fold (\<lambda>p a. min a p) xs x \<noteq> a" using False by auto
    then show ?thesis using m False by simp
  qed
qed

lemma fold_max_ge: "a \<le> fold (\<lambda>p a. max a p) xs (a::'a::linorder)"
proof (induction xs arbitrary: a)
  case Nil
  then show ?case by simp
next
  case (Cons x xs)
  have "max a x \<le> fold (\<lambda>p a. max a p) xs (max a x)" by (rule Cons.IH)
  then show ?case by simp
qed

lemma fold_max_eq: "fold (\<lambda>p a. max a p) xs (a::'a::linorder) = a \<longleftrightarrow> list_all (\<lambda>p. p \<le> a) xs"
proof (induction xs arbitrary: a)
  case Nil
  then show ?case by simp
next
  case (Cons x xs)
  show ?case
  proof (cases "x \<le> a")
    case True
    then have "max a x = a" by simp
    then show ?thesis using Cons.IH[of a] True by simp
  next
    case False
    then have m: "max a x = x" by simp
    have "x \<le> fold (\<lambda>p a. max a p) xs x" by (rule fold_max_ge)
    then have "fold (\<lambda>p a. max a p) xs x \<noteq> a" using False by auto
    then show ?thesis using m False by simp
  qed
qed

lemma scan_prices_fold:
  "n \<le> length ps \<Longrightarrow>
   scan_prices ps n j (mn, mx) =
     Inr (fold (\<lambda>p a. min a p) (filter (\<lambda>p. 0 < p) (drop j (take n ps))) mn,
          fold (\<lambda>p a. max a p) (filter (\<lambda>p. 0 < p) (drop j (take n ps))) mx)"
proof (induction ps n j "(mn, mx)" arbitrary: mn mx rule: scan_prices.induct)
  case (1 ps n j mn mx)
  show ?case
  proof (cases "j < n")
    case False
    then show ?thesis by (subst scan_prices.simps) simp
  next
    case True
    then have jl: "j < length ps" using "1.prems" by simp
    have g: "array_get ps j = Inr (ps ! j)" using jl by (simp add: array_get_def)
    have d: "drop j (take n ps) = ps ! j # drop (Suc j) (take n ps)"
      using True jl Cons_nth_drop_Suc[of j "take n ps"] by simp
    let ?acc = "if ps ! j > 0 then (MIN_of mn (ps ! j), MAX_of mx (ps ! j)) else (mn, mx)"
    have step: "scan_prices ps n j (mn, mx) = scan_prices ps n (Suc j) ?acc"
      using True g by (subst scan_prices.simps) simp
    show ?thesis
    proof (cases "ps ! j > 0")
      case pos: True
      have "scan_prices ps n (Suc j) (MIN_of mn (ps ! j), MAX_of mx (ps ! j))
            = Inr (fold (\<lambda>p a. min a p) (filter (\<lambda>p. 0 < p) (drop (Suc j) (take n ps)))
                     (MIN_of mn (ps ! j)),
                   fold (\<lambda>p a. max a p) (filter (\<lambda>p. 0 < p) (drop (Suc j) (take n ps)))
                     (MAX_of mx (ps ! j)))"
        using "1.hyps"[OF True g _ "1.prems"] pos by simp
      then show ?thesis unfolding step d using pos by (simp add: MIN_of_min MAX_of_max)
    next
      case npos: False
      have "scan_prices ps n (Suc j) (mn, mx)
            = Inr (fold (\<lambda>p a. min a p) (filter (\<lambda>p. 0 < p) (drop (Suc j) (take n ps))) mn,
                   fold (\<lambda>p a. max a p) (filter (\<lambda>p. 0 < p) (drop (Suc j) (take n ps))) mx)"
        using "1.hyps"[OF True g _ "1.prems"] npos by simp
      then show ?thesis unfolding step d using npos by simp
    qed
  qed
qed

lemma scan_times_plausible:
  "0 < data_count d \<Longrightarrow> data_count d \<le> length (timestamps d) \<Longrightarrow>
   scan_times d (t0, t1) =
     Inr (if plausible d
          then (min t0 (timestamps d ! 0), max t1 (timestamps d ! (data_count d - 1)))
          else (t0, t1))"
  by (auto simp: scan_times_def array_get_def plausible_def MIN_of_min MAX_of_max)

lemma sized_Cons: "sized (d # ds) \<longleftrightarrow> (qualifies d \<longrightarrow> in_bounds d) \<and> sized ds"
  by (simp add: sized_def)

lemma positive_prices_Cons:
  "positive_prices (d # ds) =
     (if qualifies d then filter (\<lambda>p. 0 < p) (take (data_count d) (prices d)) else [])
     @ positive_prices ds"
  by (simp add: positive_prices_def)

lemma scan_series_sized:
  "sized ds \<Longrightarrow>
   scan_series ds ((mn, mx), (t0, t1)) =
     Inr ((fold (\<lambda>p a. min a p) (positive_prices ds) mn,
           fold (\<lambda>p a. max a p) (positive_prices ds) mx),
          (fold (\<lambda>d a. min a (timestamps d ! 0)) (filter plausible (filter qualifies ds)) t0,
           fold (\<lambda>d a. max a (timestamps d ! (data_count d - 1)))
                (filter plausible (filter qualifies ds)) t1))"
proof (induction ds arbitrary: mn mx t0 t1)
  case Nil
  then show ?case by (simp add: positive_prices_def)
next
  case (Cons d ds)
  have sz: "sized ds" using Cons.prems by (simp add: sized_Cons)
  show ?case
  proof (cases "qualifies d")
    case False
    then have nv: "\<not> (valid d \<and> data_count d > 0)" by (simp add: qualifies_def)
    have "scan_series (d # ds) ((mn, mx), (t0, t1)) = scan_series ds ((mn, mx), (t0, t1))"
      by (simp only: scan_series.simps nv if_False)
    then show ?thesis using Cons.IH[OF sz] False by (simp add: positive_prices_Cons)
  next
    case True
    then have v: "valid d \<and> data_count d > 0" by (simp add: qualifies_def)
    have b: "data_count d \<le> length (prices d)" "data_count d \<le> length (timestamps d)"
      using Cons.prems True by (simp_all add: sized_Cons in_bounds_def)
    let ?pp = "filter (\<lambda>p. 0 < p) (take (data_count d) (prices d))"
    have sp: "scan_prices (prices d) (data_count d) 0 (mn, mx) =
                Inr (fold (\<lambda>p a. min a p) ?pp mn, fold (\<lambda>p a. max a p) ?pp mx)"
      using scan_prices_fold[OF b(1), of 0 mn mx] by simp
    have st: "scan_times d (t0, t1) =
                Inr (if plausible d
                     then (min t0 (timestamps d ! 0), max t1 (timestamps d ! (data_count d - 1)))
                     else (t0, t1))"
      using scan_times_plausible[of d t0 t1] v b(2) by simp
    show ?thesis
      using v sp st True Cons.IH[OF sz] by (simp add: positive_prices_Cons)
  qed
qed

lemma fold_min_by_le: "fold (\<lambda>d a. min a (f d)) ds (a::'a::linorder) \<le> a"
proof (induction ds arbitrary: a)
  case Nil
  then show ?case by simp
next
  case (Cons d ds)
  have "fold (\<lambda>d a. min a (f d)) ds (min a (f d)) \<le> min a (f d)" by (rule Cons.IH)
  then show ?case by simp
qed

lemma fold_min_by_eq:
  "fold (\<lambda>d a. min a (f d)) ds (a::'a::linorder) = a \<longleftrightarrow> list_all (\<lambda>d. a \<le> f d) ds"
proof (induction ds arbitrary: a)
  case Nil
  then show ?case by simp
next
  case (Cons d ds)
  show ?case
  proof (cases "a \<le> f d")
    case True
    then have "min a (f d) = a" by simp
    then show ?thesis using Cons.IH[of a] True by simp
  next
    case False
    then have m: "min a (f d) = f d" by simp
    have "fold (\<lambda>d a. min a (f d)) ds (f d) \<le> f d" by (rule fold_min_by_le)
    then have "fold (\<lambda>d a. min a (f d)) ds (f d) \<noteq> a" using False by auto
    then show ?thesis using m False by simp
  qed
qed

lemma fold_max_by_ge: "a \<le> fold (\<lambda>d a. max a (f d)) ds (a::'a::linorder)"
proof (induction ds arbitrary: a)
  case Nil
  then show ?case by simp
next
  case (Cons d ds)
  have "max a (f d) \<le> fold (\<lambda>d a. max a (f d)) ds (max a (f d))" by (rule Cons.IH)
  then show ?case by simp
qed

lemma fold_max_by_eq:
  "fold (\<lambda>d a. max a (f d)) ds (a::'a::linorder) = a \<longleftrightarrow> list_all (\<lambda>d. f d \<le> a) ds"
proof (induction ds arbitrary: a)
  case Nil
  then show ?case by simp
next
  case (Cons d ds)
  show ?case
  proof (cases "f d \<le> a")
    case True
    then have "max a (f d) = a" by simp
    then show ?thesis using Cons.IH[of a] True by simp
  next
    case False
    then have m: "max a (f d) = f d" by simp
    have "f d \<le> fold (\<lambda>d a. max a (f d)) ds (f d)" by (rule fold_max_by_ge)
    then have "fold (\<lambda>d a. max a (f d)) ds (f d) \<noteq> a" using False by auto
    then show ?thesis using m False by simp
  qed
qed

lemma sentinel_bounds: "9999999999 < G_MAXINT64" "G_MININT64 < 0"
  by (simp_all add: G_MAXINT64_def G_MININT64_def)

lemma no_first_time:
  "fold (\<lambda>d a. min a (timestamps d ! 0)) (filter plausible ds) G_MAXINT64 = G_MAXINT64
     \<longleftrightarrow> list_all (\<lambda>d. \<not> plausible d) ds"
proof -
  have "\<not> G_MAXINT64 \<le> timestamps d ! 0" if "plausible d" for d
    using that sentinel_bounds(1) by (simp add: plausible_def)
  then show ?thesis
    unfolding fold_min_by_eq[of "\<lambda>d. timestamps d ! 0"] by (auto simp: list_all_iff)
qed

lemma no_last_time:
  "fold (\<lambda>d a. max a (timestamps d ! (data_count d - 1))) (filter plausible ds) G_MININT64
     = G_MININT64
     \<longleftrightarrow> list_all (\<lambda>d. \<not> plausible d) ds"
proof -
  have "\<not> timestamps d ! (data_count d - 1) \<le> G_MININT64" if "plausible d" for d
    using that sentinel_bounds(2) by (simp add: plausible_def)
  then show ?thesis
    unfolding fold_max_by_eq[of "\<lambda>d. timestamps d ! (data_count d - 1)"] by (auto simp: list_all_iff)
qed

lemma scan_series_no_scale:
  assumes "sized ds"
  shows "\<exists>mn mx t0 t1.
           scan_series ds ((G_MAXDOUBLE, G_MINDOUBLE), (G_MAXINT64, G_MININT64))
             = Inr ((mn, mx), (t0, t1))
           \<and> ((mn = G_MAXDOUBLE \<or> mx = G_MINDOUBLE \<or> t0 = G_MAXINT64 \<or> t1 = G_MININT64)
                \<longleftrightarrow> no_scale ds)"
proof -
  have "(fold (\<lambda>p a. min a p) (positive_prices ds) G_MAXDOUBLE = G_MAXDOUBLE
         \<or> fold (\<lambda>p a. max a p) (positive_prices ds) G_MINDOUBLE = G_MINDOUBLE
         \<or> fold (\<lambda>d a. min a (timestamps d ! 0)) (filter plausible (filter qualifies ds))
              G_MAXINT64 = G_MAXINT64
         \<or> fold (\<lambda>d a. max a (timestamps d ! (data_count d - 1)))
              (filter plausible (filter qualifies ds)) G_MININT64 = G_MININT64)
        \<longleftrightarrow> no_scale ds"
    unfolding no_scale_def no_first_time no_last_time fold_min_eq fold_max_eq by blast
  then show ?thesis
    unfolding scan_series_sized[OF assms] by blast
qed

lemma draw_points_total:
  "in_bounds d \<Longrightarrow> \<exists>ops. draw_points d w mp ys j fp = Inr ops"
proof (induction d w mp ys j fp rule: draw_points.induct)
  case (1 d w mp ys j fp)
  show ?case
  proof (cases "j < data_count d")
    case False
    then show ?thesis by (subst draw_points.simps) simp
  next
    case True
    have gp: "array_get (prices d) j = Inr (prices d ! j)"
      and gt: "array_get (timestamps d) j = Inr (timestamps d ! j)"
      using True "1.prems" by (simp_all add: array_get_def in_bounds_def)
    let ?p = "prices d ! j" and ?t = "timestamps d ! j"
    show ?thesis
    proof (cases "?p > 0")
      case np: False
      have "\<exists>ops. draw_points d w mp ys (Suc j) fp = Inr ops"
        using "1.IH"(3)[OF True gp np "1.prems"] .
      then show ?thesis using True gp np by (subst draw_points.simps) simp
    next
      case p: True
      show ?thesis
      proof (cases "?t > 0 \<and> ?t < 9999999999")
        case nt: False
        have "\<exists>ops. draw_points d w mp ys (Suc j) fp = Inr ops"
          using "1.IH"(2)[OF True gp p gt nt "1.prems"] .
        then show ?thesis using True gp gt p nt by (subst draw_points.simps) auto
      next
        case t: True
        have "\<exists>ops. draw_points d w mp ys (Suc j) False = Inr ops"
          using "1.IH"(1)[OF True gp p gt t refl refl "1.prems"] .
        then obtain ops where "draw_points d w mp ys (Suc j) False = Inr ops" by blast
        then show ?thesis using True gp gt p t by (subst draw_points.simps) (simp add: Let_def)
      qed
    qed
  qed
qed

lemma collect_sort_info_total:
  "sized ds \<Longrightarrow>
   \<exists>si. collect_sort_info ds k = Inr si \<and> (\<forall>e \<in> set si. k \<le> index e \<and> index e < k + length ds)"
proof (induction ds arbitrary: k)
  case Nil
  then show ?case by simp
next
  case (Cons d ds)
  have sz: "sized ds" using Cons.prems by (simp add: sized_Cons)
  from Cons.IH[OF sz, of "Suc k"] obtain rest where
    rest: "collect_sort_info ds (Suc k) = Inr rest"
    and bnd: "\<forall>e \<in> set rest. Suc k \<le> index e \<and> index e < Suc k + length ds"
    by blast
  show ?case
  proof (cases "qualifies d")
    case False
    then have nv: "\<not> (valid d \<and> data_count d > 0)" by (simp add: qualifies_def)
    have "collect_sort_info (d # ds) k = Inr rest"
      using rest by (simp only: collect_sort_info.simps nv if_False)
    then show ?thesis using bnd by auto
  next
    case True
    then have v: "valid d \<and> data_count d > 0" by (simp add: qualifies_def)
    have "data_count d \<le> length (prices d)"
      using Cons.prems True by (simp add: sized_Cons in_bounds_def)
    then have g: "array_get (prices d) (data_count d - 1) = Inr (prices d ! (data_count d - 1))"
      using v by (auto simp: array_get_def)
    have "collect_sort_info (d # ds) k
            = Inr (\<lparr>index = k, current_price = prices d ! (data_count d - 1)\<rparr> # rest)"
      using v g rest by simp
    then show ?thesis using bnd by auto
  qed
qed

lemma draw_stock_total:
  assumes "index info < length cd" and "qualifies (cd ! index info)"
    and "in_bounds (cd ! index info)"
  shows "\<exists>ops. draw_stock cd w mp ys i info = Inr ops"
proof -
  let ?d = "cd ! index info"
  have g: "array_get cd (index info) = Inr ?d" using assms(1) by (simp add: array_get_def)
  obtain line where line: "draw_points ?d w mp ys 0 True = Inr line"
    using draw_points_total[OF assms(3)] by blast
  have c: "array_get (prices ?d) (data_count ?d - 1) = Inr (prices ?d ! (data_count ?d - 1))"
    using assms(2,3) by (auto simp: array_get_def qualifies_def in_bounds_def)
  show ?thesis using g line c by (simp add: draw_stock_def Let_def)
qed

lemma draw_stocks_total:
  "(\<And>e. e \<in> set infos \<Longrightarrow>
        index e < length cd \<and> qualifies (cd ! index e) \<and> in_bounds (cd ! index e)) \<Longrightarrow>
   \<exists>ops. draw_stocks cd w mp ys k infos = Inr ops"
proof (induction infos arbitrary: k)
  case Nil
  then show ?case by simp
next
  case (Cons info rest)
  have "index info < length cd \<and> qualifies (cd ! index info) \<and> in_bounds (cd ! index info)"
    using Cons.prems[of info] by simp
  then obtain o1 where o1: "draw_stock cd w mp ys k info = Inr o1"
    using draw_stock_total[of info cd w mp ys k] by blast
  have "\<exists>ops. draw_stocks cd w mp ys (Suc k) rest = Inr ops"
    by (rule Cons.IH) (simp add: Cons.prems)
  then obtain o2 where o2: "draw_stocks cd w mp ys (Suc k) rest = Inr o2" by blast
  show ?case by (simp add: o1 o2)
qed

lemma chart_draw_cb_no_data:
  assumes "has_valid_data chart" and "sized (chart_data chart)" and "no_scale (chart_data chart)"
  shows "chart_draw_cb w h chart
           = Inr ([SetSourceRGB 1 1 1, Paint] @ draw_loading_message w h ''No chart data available'')"
proof -
  from scan_series_no_scale[OF assms(2)] obtain mn mx t0 t1 where
    sc: "scan_series (chart_data chart) ((G_MAXDOUBLE, G_MINDOUBLE), (G_MAXINT64, G_MININT64))
           = Inr ((mn, mx), (t0, t1))"
    and deg: "(mn = G_MAXDOUBLE \<or> mx = G_MINDOUBLE \<or> t0 = G_MAXINT64 \<or> t1 = G_MININT64)
                \<longleftrightarrow> no_scale (chart_data chart)"
    by blast
  have d: "mn = G_MAXDOUBLE \<or> mx = G_MINDOUBLE \<or> t0 = G_MAXINT64 \<or> t1 = G_MININT64"
    using deg assms(3) by simp
  show ?thesis
    unfolding chart_draw_cb_def Let_def sc using assms(1) d by simp
qed

lemma chart_draw_cb_drawn:
  assumes "has_valid_data chart" and "sized (chart_data chart)"
    and "\<not> no_scale (chart_data chart)"
  shows "\<exists>ops rest. chart_draw_cb w h chart = Inr ops
           \<and> ops = [SetSourceRGB 1 1 1, Paint] @ draw_grid w h @ rest
           \<and> \<not> shows_message ops"
proof -
  let ?cd = "chart_data chart"
  from scan_series_no_scale[OF assms(2)] obtain mn mx t0 t1 where
    sc: "scan_series ?cd ((G_MAXDOUBLE, G_MINDOUBLE), (G_MAXINT64, G_MININT64))
           = Inr ((mn, mx), (t0, t1))"
    and deg: "(mn = G_MAXDOUBLE \<or> mx = G_MINDOUBLE \<or> t0 = G_MAXINT64 \<or> t1 = G_MININT64)
                \<longleftrightarrow> no_scale ?cd"
    by blast
  have nd: "\<not> (mn = G_MAXDOUBLE \<or> mx = G_MINDOUBLE \<or> t0 = G_MAXINT64 \<or> t1 = G_MININT64)"
    using deg assms(3) by simp
  from collect_sort_info_total[OF assms(2), of 0] obtain si where
    si: "collect_sort_info ?cd 0 = Inr si"
    and bnd: "\<forall>e \<in> set si. index e < length ?cd"
    by auto
  have ent: "map (\<lambda>e. ?cd ! index e) si = filter qualifies ?cd"
    using collect_sort_info_entries[OF si] by simp
  have mem: "?cd ! index e \<in> set (filter qualifies ?cd)" if "e \<in> set si" for e
  proof -
    have "?cd ! index e \<in> set (map (\<lambda>e. ?cd ! index e) si)" using that by simp
    then show ?thesis unfolding ent .
  qed
  let ?sorted = "sort_outer si (length si) 0"
  have "mset ?sorted = mset si" using sort_outer_sorted[of si] by simp
  then have set_eq: "set ?sorted = set si" by (metis set_mset_mset)
  have ok: "index e < length ?cd \<and> qualifies (?cd ! index e) \<and> in_bounds (?cd ! index e)"
    if "e \<in> set ?sorted" for e
  proof -
    have e: "e \<in> set si" using that set_eq by simp
    have "qualifies (?cd ! index e)" using mem[OF e] by simp
    moreover have "in_bounds (?cd ! index e)"
      using mem[OF e] assms(2) by (simp add: sized_def list_all_iff)
    ultimately show ?thesis using bnd e by simp
  qed
  let ?mn = "mn - (mx - mn) * 0.05" and ?mx = "mx + (mx - mn) * 0.05"
  let ?ys = "fdiv (real_of_int (h - 100)) (?mx - ?mn)"
  obtain series where series: "draw_stocks ?cd w ?mx ?ys 0 ?sorted = Inr series"
    using draw_stocks_total[of ?sorted ?cd w ?mx ?ys 0] ok by blast
  let ?rest = "[SetSourceRGB 0 0 0, SelectFontFace ''Sans'', SetFontSize 10]
               @ price_labels h ?mn ?mx @ time_labels chart w h t0 t1 @ series"
  have "chart_draw_cb w h chart
          = Inr ([SetSourceRGB 1 1 1, Paint]
                 @ (draw_grid w h @ [SetSourceRGB 0 0 0, SelectFontFace ''Sans'', SetFontSize 10]
                    @ price_labels h ?mn ?mx @ time_labels chart w h t0 t1) @ series)"
    unfolding chart_draw_cb_def Let_def sc
    by (simp only: assms(1) not_True_eq_False if_False nd sum.case prod.case si series)
  then have eq: "chart_draw_cb w h chart = Inr ([SetSourceRGB 1 1 1, Paint] @ draw_grid w h @ ?rest)"
    by (simp only: append_assoc)
  have nm: "\<not> shows_message ([SetSourceRGB 1 1 1, Paint] @ draw_grid w h @ ?rest)"
    using draw_stocks_rows[OF series]
    by (simp add: shows_message_append shows_message_simps axes_plain)
  show ?thesis using eq nm by blast
qed

lemma chart_draw_cb_loading:
  "\<not> has_valid_data c \<Longrightarrow>
   chart_draw_cb w h c
     = Inr ([SetSourceRGB 1 1 1, Paint] @ draw_loading_message w h ''Loading chart data...'')"
  by (simp add: chart_draw_cb_def)

lemma tiny_price_facts:
  "has_valid_data tiny_price_series" "sized (chart_data tiny_price_series)"
  "no_scale (chart_data tiny_price_series)"
  "positive_prices (chart_data tiny_price_series) = [1 / 2 ^ 1023]"
  by (simp_all add: tiny_price_series_def has_valid_data_def qualifies_def sized_def in_bounds_def
      no_scale_def positive_prices_def G_MINDOUBLE_def)

lemma zero_price_facts:
  "has_valid_data zero_price_series" "sized (chart_data zero_price_series)"
  "no_scale (chart_data zero_price_series)"
  by (simp_all add: zero_price_series_def has_valid_data_def qualifies_def sized_def in_bounds_def
      no_scale_def positive_prices_def)

lemma three_series_facts:
  "sized (chart_data three_series)" "\<not> no_scale (chart_data three_series)"
  by (simp_all add: three_series_data qualifies_def sized_def in_bounds_def
      no_scale_def positive_prices_def plausible_def G_MINDOUBLE_def G_MAXDOUBLE_def)

text \<open>
  Claim C3, as amended. When no series qualifies, the draw pass shows the centered message
  ``Loading chart data...'', whether or not a fetch has completed: in particular, after a
  fetch was started and a completion with a status that is not OK was handled, the chart
  shows ``Loading chart data...''. The message ``No chart data available'' is shown only
  when some series qualifies. When some series qualifies and every qualifying series holds
  at least \<open>data_count\<close> prices and timestamps, the draw pass returns; it shows ``No chart
  data available'' exactly when the scaling pass finds no scale, that is, when no strictly
  positive price among the first \<open>data_count\<close> prices of the qualifying series is below
  \<open>G_MAXDOUBLE\<close>, or none is above \<open>G_MINDOUBLE\<close>, or no qualifying series has positive
  first and last timestamps with the first below 9999999999; otherwise it draws the
  background and the grid, and shows no placeholder.
\<close>

theorem placeholder_is_loading_without_series:
  "(\<not> has_valid_data chart \<longrightarrow>
      chart_draw_cb w h chart
        = Inr ([SetSourceRGB 1 1 1, Paint] @ draw_loading_message w h ''Loading chart data...''))
   \<and> (chart_draw_cb w h chart
        = Inr ([SetSourceRGB 1 1 1, Paint] @ draw_loading_message w h ''No chart data available'')
      \<longrightarrow> has_valid_data chart)
   \<and> (has_valid_data chart \<and> sized (chart_data chart) \<and> no_scale (chart_data chart) \<longrightarrow>
        chart_draw_cb w h chart
          = Inr ([SetSourceRGB 1 1 1, Paint]
                 @ draw_loading_message w h ''No chart data available''))
   \<and> (has_valid_data chart \<and> sized (chart_data chart) \<and> \<not> no_scale (chart_data chart) \<longrightarrow>
        (\<exists>ops rest. chart_draw_cb w h chart = Inr ops
           \<and> ops = [SetSourceRGB 1 1 1, Paint] @ draw_grid w h @ rest
           \<and> \<not> shows_message ops))
   \<and> (symbols \<noteq> [] \<and> status_code msg \<noteq> SOUP_STATUS_OK \<longrightarrow>
        (\<exists>c'. on_chart_data_received (fst (fetch_chart_data (Some symbols) c0)) i msg = Inr c'
           \<and> chart_draw_cb w h c'
               = Inr ([SetSourceRGB 1 1 1, Paint]
                      @ draw_loading_message w h ''Loading chart data...'')))"
proof -
  have b: "has_valid_data chart"
    if "chart_draw_cb w h chart
        = Inr ([SetSourceRGB 1 1 1, Paint] @ draw_loading_message w h ''No chart data available'')"
  proof (rule ccontr)
    assume "\<not> has_valid_data chart"
    from chart_draw_cb_loading[OF this, of w h] that show False
      by (simp add: draw_loading_message_def)
  qed
  have c: "\<exists>c'. on_chart_data_received (fst (fetch_chart_data (Some symbols) c0)) i msg = Inr c'
           \<and> chart_draw_cb w h c'
               = Inr ([SetSourceRGB 1 1 1, Paint]
                      @ draw_loading_message w h ''Loading chart data...'')"
    if "symbols \<noteq> []" "status_code msg \<noteq> SOUP_STATUS_OK"
    using that chart_draw_cb_loading[OF started_no_valid_data[OF that(1), of c0]]
    by (simp add: on_chart_data_received_def)
  show ?thesis
    using chart_draw_cb_loading[of chart w h] b c
      chart_draw_cb_no_data[of chart w h] chart_draw_cb_drawn[of chart w h]
    by (intro conjI impI) blast+
qed

theorem placeholder_is_loading_without_series_witness:
  "\<not> has_valid_data (started [''IBM''])
   \<and> chart_draw_cb 800 500 (started [''IBM''])
        = Inr ([SetSourceRGB 1 1 1, Paint] @ draw_loading_message 800 500 ''Loading chart data...'')
   \<and> has_valid_data tiny_price_series \<and> sized (chart_data tiny_price_series)
   \<and> no_scale (chart_data tiny_price_series)
   \<and> positive_prices (chart_data tiny_price_series) = [1 / 2 ^ 1023]
   \<and> chart_draw_cb 800 500 tiny_price_series
        = Inr ([SetSourceRGB 1 1 1, Paint] @ draw_loading_message 800 500 ''No chart data available'')
   \<and> has_valid_data zero_price_series \<and> sized (chart_data zero_price_series)
   \<and> no_scale (chart_data zero_price_series)
   \<and> chart_draw_cb 800 500 zero_price_series
        = Inr ([SetSourceRGB 1 1 1, Paint] @ draw_loading_message 800 500 ''No chart data available'')
   \<and> has_valid_data three_series \<and> sized (chart_data three_series)
   \<and> \<not> no_scale (chart_data three_series)
   \<and> chart_draw_cb 800 500 three_series = Inr three_series_drawing
   \<and> \<not> shows_message three_series_drawing
   \<and> [''IBM''] \<noteq> [] \<and> status_code failed_message \<noteq> SOUP_STATUS_OK
   \<and> (\<exists>c'. on_chart_data_received (fst (fetch_chart_data (Some [''IBM'']) invest_chart_new)) 0
              failed_message = Inr c'
           \<and> chart_draw_cb 800 500 c'
               = Inr ([SetSourceRGB 1 1 1, Paint]
                      @ draw_loading_message 800 500 ''Loading chart data...''))"
proof -
  have h1: "\<not> has_valid_data (started [''IBM''])"
    unfolding started_def by (rule started_no_valid_data) simp
  have h2: "[''IBM''] \<noteq> [] \<and> status_code failed_message \<noteq> SOUP_STATUS_OK"
    by (simp add: failed_message_def SOUP_STATUS_OK_def)
  note t1 = placeholder_is_loading_without_series
      [of "started [''IBM'']" 800 500 "[''IBM'']" failed_message invest_chart_new 0]
  note t2 = placeholder_is_loading_without_series
      [of tiny_price_series 800 500 "[''IBM'']" failed_message invest_chart_new 0]
  note t3 = placeholder_is_loading_without_series
      [of zero_price_series 800 500 "[''IBM'']" failed_message invest_chart_new 0]
  note t4 = placeholder_is_loading_without_series
      [of three_series 800 500 "[''IBM'']" failed_message invest_chart_new 0]
  have a1: "chart_draw_cb 800 500 (started [''IBM''])
        = Inr ([SetSourceRGB 1 1 1, Paint] @ draw_loading_message 800 500 ''Loading chart data...'')"
    using t1 h1 by blast
  have a2: "chart_draw_cb 800 500 tiny_price_series
        = Inr ([SetSourceRGB 1 1 1, Paint] @ draw_loading_message 800 500 ''No chart data available'')"
    using t2 tiny_price_facts(1,2,3) by blast
  have a3: "chart_draw_cb 800 500 zero_price_series
        = Inr ([SetSourceRGB 1 1 1, Paint] @ draw_loading_message 800 500 ''No chart data available'')"
    using t3 zero_price_facts by blast
  have "\<exists>ops rest. chart_draw_cb 800 500 three_series = Inr ops
           \<and> ops = [SetSourceRGB 1 1 1, Paint] @ draw_grid 800 500 @ rest
           \<and> \<not> shows_message ops"
    using t4 three_series_valid three_series_facts by blast
  then have a4: "\<not> shows_message three_series_drawing"
    unfolding three_series_drawn by blast
  have a5: "\<exists>c'. on_chart_data_received (fst (fetch_chart_data (Some [''IBM'']) invest_chart_new)) 0
              failed_message = Inr c'
           \<and> chart_draw_cb 800 500 c'
               = Inr ([SetSourceRGB 1 1 1, Paint]
                      @ draw_loading_message 800 500 ''Loading chart data...'')"
    using t1 h2 by blast
  show ?thesis
    using h1 h2 a1 a2 a3 a4 a5 tiny_price_facts zero_price_facts three_series_valid
      three_series_facts three_series_drawn
    by (intro conjI) simp_all
qed

text \<open>
  Claim C3 as stated fails: with one configured symbol whose fetch fails with status 500,
  the chart drawn after that completion shows ``Loading chart data...''.
\<close>

theorem failed_fetch_shows_loading_counterexample:
  "on_chart_data_received (started [''IBM'']) 0 failed_message = Inr (started [''IBM''])
   \<and> chart_draw_cb 800 500 (started [''IBM''])
       = Inr [SetSourceRGB 1 1 1, Paint, SetSourceRGB 0 0 0, SelectFontFace ''Sans'',
              SetFontSize 16, MoveTo (Some 350) (Some 250),
              ShowText (Message ''Loading chart data...'')]"
proof -
  have "\<not> has_valid_data (started [''IBM''])"
    unfolding started_def by (rule started_no_valid_data) simp
  then show ?thesis
    by (simp add: on_chart_data_received_def failed_message_def SOUP_STATUS_OK_def
        chart_draw_cb_def draw_loading_message_def signed_divide_int_def)
qed

subsection \<open>Reads of the price array\<close>

text \<open>
  Claim C10 does not hold of the code. A response with three timestamps and an empty close
  array gives a series that is valid with \<open>data_count = 3\<close> and no prices; the series
  qualifies, and the draw pass reads its price at index 0, outside the array.
\<close>

theorem short_prices_read_out_of_bounds:
  "on_chart_data_received (started [''IBM'']) 0
     (ok_message (example_document [JInt 1000, JInt 1010, JInt 1020] []))
   = Inr \<lparr>window_visible = False,
          chart_data = [\<lparr>symbol = ''IBM'', prices = [], timestamps = [1000, 1010, 1020],
                         data_count = 3, valid = True\<rparr>],
          chart_range = Some ''1d'', chart_interval = Some ''1m''\<rparr>
   \<and> qualifies \<lparr>symbol = ''IBM'', prices = [], timestamps = [1000, 1010, 1020],
                 data_count = 3, valid = True\<rparr>
   \<and> chart_draw_cb 800 500
        \<lparr>window_visible = False,
         chart_data = [\<lparr>symbol = ''IBM'', prices = [], timestamps = [1000, 1010, 1020],
                        data_count = 3, valid = True\<rparr>],
         chart_range = Some ''1d'', chart_interval = Some ''1m''\<rparr>
       = Inl OutOfBounds"
  by (simp add: started_eval ok_message_handled extracted_example init_slot_def qualifies_def
      chart_draw_cb_def has_valid_data_def scan_prices.simps array_get_def)

end
